theory Spec2Isabelle
  imports Complex_Main "HOL-Library.Log_Nat"
begin

section \<open>JavaScript numbers\<close>

text \<open>
  Every numeric value of \<^verbatim>\<open>src/index.tsx\<close> is a JavaScript \<^verbatim>\<open>number\<close>, an IEEE 754 double.
  The functions of the program are embedded once, polymorphically in the type of numbers:
  the operators \<^verbatim>\<open>+ - * /\<close> and the literals \<^verbatim>\<open>0\<close>, \<^verbatim>\<open>1\<close> are those of the syntactic type
  classes, and the three library functions the program calls (\<^verbatim>\<open>Math.sqrt\<close>, \<^verbatim>\<open>isNaN\<close>, and
  the conversion of an array length or index to a number) are the fields of a record
  \<open>jsMath\<close>.  Its field \<open>nan\<close> stands for what an array read beyond the last element leaves in
  a number: JavaScript yields \<^verbatim>\<open>undefined\<close> there, which arithmetic turns into NaN.

  Two types of numbers instantiate the functions.  \<open>double\<close> is the arithmetic the program
  runs on: every operation rounds to the nearest double.  \<open>number\<close> is the arithmetic
  without rounding; a statement proved in it says what the formulas of the program mean,
  and it says what the program does only where no operation rounds.  Statements that
  hold for any arithmetic are stated for any \<open>jsMath\<close>.

  The comparisons \<^verbatim>\<open>=== 0\<close> and \<^verbatim>\<open>!== 1\<close> of the source are comparisons with a constant
  that is not NaN, so they agree with HOL equality as long as \<open>+0\<close> and \<open>-0\<close> are one
  value and every number has one representation, which is the case in both types.
\<close>

record 'a jsMath =
  Math_sqrt :: "'a \<Rightarrow> 'a"
  isNaN :: "'a \<Rightarrow> bool"
  ofNat :: "nat \<Rightarrow> 'a"
  nan :: 'a

subsection \<open>Exact numbers\<close>

text \<open>
  \<open>number\<close> is the set of values of a JavaScript number with the finite values idealised:
  a finite number is a real, and arithmetic on finite numbers is exact (no rounding, no
  overflow, no underflow, one zero).  NaN and the two infinities behave as IEEE 754 says.
\<close>

datatype number = NaN | NInf | Num real | PInf

fun neg :: "number \<Rightarrow> number" where
  "neg NaN = NaN"
| "neg NInf = PInf"
| "neg (Num a) = Num (- a)"
| "neg PInf = NInf"

fun add :: "number \<Rightarrow> number \<Rightarrow> number" where
  "add (Num a) (Num b) = Num (a + b)"
| "add NaN _ = NaN"
| "add _ NaN = NaN"
| "add PInf NInf = NaN"
| "add NInf PInf = NaN"
| "add PInf _ = PInf"
| "add _ PInf = PInf"
| "add NInf _ = NInf"
| "add _ NInf = NInf"

text \<open>The sign of a value that is not NaN, as \<open>True\<close> for negative; zero counts as positive.\<close>

fun negative :: "number \<Rightarrow> bool" where
  "negative NInf = True"
| "negative (Num a) = (a < 0)"
| "negative _ = False"

definition infinity :: "bool \<Rightarrow> number" where
  "infinity s = (if s then NInf else PInf)"

fun mul :: "number \<Rightarrow> number \<Rightarrow> number" where
  "mul (Num a) (Num b) = Num (a * b)"
| "mul NaN _ = NaN"
| "mul _ NaN = NaN"
| "mul x y = (if x = Num 0 \<or> y = Num 0 then NaN else infinity (negative x \<noteq> negative y))"

text \<open>
  Division by a zero is written out although the program guards each of its divisions:
  the one zero of this type counts as \<open>+0\<close>.
\<close>

fun quot :: "number \<Rightarrow> number \<Rightarrow> number" where
  "quot (Num a) (Num b) =
     (if b \<noteq> 0 then Num (a / b) else if a = 0 then NaN else infinity (a < 0))"
| "quot NaN _ = NaN"
| "quot _ NaN = NaN"
| "quot (Num a) _ = Num 0"
| "quot x (Num b) = infinity (negative x \<noteq> (b < 0))"
| "quot _ _ = NaN"

fun sqrt_number :: "number \<Rightarrow> number" where
  "sqrt_number (Num a) = (if a < 0 then NaN else Num (sqrt a))"
| "sqrt_number PInf = PInf"
| "sqrt_number _ = NaN"

text \<open>
  Addition of exact numbers is associative and commutative with unit 0, which makes the
  sum of a list of numbers available; the other operators are plain functions.
\<close>

instantiation number :: "{comm_monoid_add, one, minus, uminus, times, inverse}"
begin

definition zero_number :: number where "zero_number = Num 0"
definition one_number :: number where "one_number = Num 1"
definition plus_number :: "number \<Rightarrow> number \<Rightarrow> number" where "plus_number = add"
definition uminus_number :: "number \<Rightarrow> number" where "uminus_number = neg"
definition minus_number :: "number \<Rightarrow> number \<Rightarrow> number" where "minus_number a b = add a (neg b)"
definition times_number :: "number \<Rightarrow> number \<Rightarrow> number" where "times_number = mul"
definition divide_number :: "number \<Rightarrow> number \<Rightarrow> number" where "divide_number = quot"
definition inverse_number :: "number \<Rightarrow> number" where "inverse_number = quot (Num 1)"

instance
proof
  fix a b c :: number
  show "a + b + c = a + (b + c)"
    by (cases a; cases b; cases c) (simp_all add: plus_number_def)
  show "a + b = b + a"
    by (cases a; cases b) (simp_all add: plus_number_def)
  show "0 + a = a"
    by (cases a) (simp_all add: plus_number_def zero_number_def)
qed

end

definition exact :: "number jsMath" where
  "exact = \<lparr>Math_sqrt = sqrt_number, isNaN = (\<lambda>v. v = NaN), ofNat = (\<lambda>n. Num (of_nat n)),
             nan = NaN\<rparr>"

subsection \<open>Doubles\<close>

text \<open>
  A finite double is \<open>DFin m e\<close> with the value \<open>m \<times> 2\<^sup>e\<close>, in the one representation that the
  format itself has: \<open>2\<^sup>5\<^sup>2 \<le> |m| < 2\<^sup>5\<^sup>3\<close> and \<open>-1074 \<le> e \<le> 971\<close> for a normal number, \<open>|m| < 2\<^sup>5\<^sup>2\<close>
  and \<open>e = -1074\<close> for a subnormal number and for zero.  \<open>DInf s\<close> is the infinity of sign
  \<open>s\<close> (\<open>True\<close> for negative).  The two zeros of the format are one value, \<open>DFin 0 (-1074)\<close>:
  they are equal for \<^verbatim>\<open>===\<close>, and the program performs no division by zero, which alone
  could tell them apart.
\<close>

datatype double = DNaN | DInf bool | DFin int int

text \<open>
  The double nearest to \<open>m \<times> 2\<^sup>e\<close>, with a tie going to the even significand (the rounding
  of IEEE 754 that JavaScript uses).  \<open>u\<close> is the exponent of the last place that is kept:
  53 bits are kept, fewer below the normal range.  A result beyond the largest double
  is an infinity.
\<close>

definition roundDyadic :: "int \<Rightarrow> int \<Rightarrow> double" where
  "roundDyadic m e =
     (if m = 0 then DFin 0 (- 1074)
      else
        let u = max (e + bitlen \<bar>m\<bar> - 53) (- 1074);
            q = (if u \<le> e then \<bar>m\<bar> * 2 ^ nat (e - u)
                 else
                   let d = 2 ^ nat (u - e);
                       t = \<bar>m\<bar> div d;
                       r = \<bar>m\<bar> mod d
                   in if d < 2 * r \<or> (2 * r = d \<and> odd t) then t + 1 else t);
            q' = (if q = 2 ^ 53 then 2 ^ 52 else q);
            u' = (if q = 2 ^ 53 then u + 1 else u)
        in if 971 < u' then DInf (m < 0) else DFin (if m < 0 then - q' else q') u')"

text \<open>The integer square root, rounded down.\<close>

function isqrt :: "int \<Rightarrow> int" where
  "isqrt n =
     (if n < 2 then max n 0
      else let r = 2 * isqrt (n div 4) in if (r + 1) * (r + 1) \<le> n then r + 1 else r)"
  by pat_completeness auto
termination
  by (relation "measure nat") auto

fun dneg :: "double \<Rightarrow> double" where
  "dneg DNaN = DNaN"
| "dneg (DInf s) = DInf (\<not> s)"
| "dneg (DFin m e) = DFin (- m) e"

text \<open>The sum of two finite doubles is the rounded exact sum.\<close>

fun dadd :: "double \<Rightarrow> double \<Rightarrow> double" where
  "dadd (DFin m1 e1) (DFin m2 e2) =
     (let e = min e1 e2 in roundDyadic (m1 * 2 ^ nat (e1 - e) + m2 * 2 ^ nat (e2 - e)) e)"
| "dadd DNaN _ = DNaN"
| "dadd _ DNaN = DNaN"
| "dadd (DInf s) (DInf t) = (if s = t then DInf s else DNaN)"
| "dadd (DInf s) _ = DInf s"
| "dadd _ (DInf t) = DInf t"

fun dnegative :: "double \<Rightarrow> bool" where
  "dnegative (DInf s) = s"
| "dnegative (DFin m e) = (m < 0)"
| "dnegative DNaN = False"

fun dmul :: "double \<Rightarrow> double \<Rightarrow> double" where
  "dmul (DFin m1 e1) (DFin m2 e2) = roundDyadic (m1 * m2) (e1 + e2)"
| "dmul DNaN _ = DNaN"
| "dmul _ DNaN = DNaN"
| "dmul x y =
     (if x = DFin 0 (- 1074) \<or> y = DFin 0 (- 1074) then DNaN else DInf (dnegative x \<noteq> dnegative y))"

text \<open>
  The quotient of two finite doubles that are not zero: the quotient \<open>q\<close> of the
  significands is taken with at least 56 bits, a last bit is set when the division
  leaves a remainder, and the result is rounded.  The bit that is set keeps a quotient
  that is not exact on its side of every double and of every midpoint of two doubles.
  The square root is rounded in the same way.
\<close>

fun ddiv :: "double \<Rightarrow> double \<Rightarrow> double" where
  "ddiv (DFin m1 e1) (DFin m2 e2) =
     (if m2 = 0 then (if m1 = 0 then DNaN else DInf (m1 < 0))
      else if m1 = 0 then DFin 0 (- 1074)
      else
        let k = 56 + bitlen \<bar>m2\<bar> - bitlen \<bar>m1\<bar>;
            q = (\<bar>m1\<bar> * 2 ^ nat k) div \<bar>m2\<bar>;
            r = (\<bar>m1\<bar> * 2 ^ nat k) mod \<bar>m2\<bar>;
            n = 2 * q + (if r = 0 then 0 else 1)
        in roundDyadic (if (m1 < 0) \<noteq> (m2 < 0) then - n else n) (e1 - e2 - k - 1))"
| "ddiv DNaN _ = DNaN"
| "ddiv _ DNaN = DNaN"
| "ddiv (DFin m e) (DInf t) = DFin 0 (- 1074)"
| "ddiv (DInf s) (DFin m e) = DInf (s \<noteq> (m < 0))"
| "ddiv (DInf s) (DInf t) = DNaN"

fun dsqrt :: "double \<Rightarrow> double" where
  "dsqrt (DFin m e) =
     (if m < 0 then DNaN
      else if m = 0 then DFin 0 (- 1074)
      else
        let k0 = 112 - bitlen m;
            k = (if even (e - k0) then k0 else k0 + 1);
            s = isqrt (m * 2 ^ nat k);
            n = 2 * s + (if s * s = m * 2 ^ nat k then 0 else 1)
        in roundDyadic n ((e - k) div 2 - 1))"
| "dsqrt (DInf s) = (if s then DNaN else DInf False)"
| "dsqrt DNaN = DNaN"

instantiation double :: "{zero, one, plus, minus, uminus, times, inverse}"
begin

definition zero_double :: double where "zero_double = DFin 0 (- 1074)"
definition one_double :: double where "one_double = DFin (2 ^ 52) (- 52)"
definition plus_double :: "double \<Rightarrow> double \<Rightarrow> double" where "plus_double = dadd"
definition uminus_double :: "double \<Rightarrow> double" where "uminus_double = dneg"
definition minus_double :: "double \<Rightarrow> double \<Rightarrow> double" where "minus_double a b = dadd a (dneg b)"
definition times_double :: "double \<Rightarrow> double \<Rightarrow> double" where "times_double = dmul"
definition divide_double :: "double \<Rightarrow> double \<Rightarrow> double" where "divide_double = ddiv"
definition inverse_double :: "double \<Rightarrow> double" where "inverse_double = ddiv (DFin (2 ^ 52) (- 52))"

instance ..

end

definition binary64 :: "double jsMath" where
  "binary64 = \<lparr>Math_sqrt = dsqrt, isNaN = (\<lambda>v. v = DNaN), ofNat = (\<lambda>n. roundDyadic (int n) 0),
                nan = DNaN\<rparr>"

text \<open>
  The double of an integer numeral, and the value of a double as a real (0 for the values
  that are not finite).  The double of a decimal numeral such as \<^verbatim>\<open>0.3\<close> is the double nearest
  to \<open>3/10\<close>, which is the quotient \<open>dbl 3 / dbl 10\<close>.
\<close>

definition dbl :: "int \<Rightarrow> double" where
  "dbl i = roundDyadic i 0"

fun valueOf :: "double \<Rightarrow> real" where
  "valueOf (DFin m e) = (if 0 \<le> e then real_of_int m * 2 ^ nat e else real_of_int m / 2 ^ nat (- e))"
| "valueOf _ = 0"

section \<open>Regression Engine\<close>

record 'a CalibrationResult =
  slope :: 'a
  rSquared :: 'a

text \<open>The body of the \<^verbatim>\<open>forEach\<close> of \<^verbatim>\<open>calculateLinearRegression\<close>, on the five running sums.\<close>

definition sumStep ::
  "'a::{plus, times} \<times> 'a \<times> 'a \<times> 'a \<times> 'a \<Rightarrow> 'a \<times> 'a \<Rightarrow> 'a \<times> 'a \<times> 'a \<times> 'a \<times> 'a" where
  "sumStep acc p =
     (case acc of (sumX, sumY, sumXY, sumX2, sumY2) \<Rightarrow>
      case p of (x, y) \<Rightarrow>
        (sumX + x, sumY + y, sumXY + x * y, sumX2 + x * x, sumY2 + y * y))"

definition calculateLinearRegression ::
  "'a::{zero, one, plus, minus, times, inverse} jsMath \<Rightarrow> ('a \<times> 'a) list \<Rightarrow> 'a CalibrationResult" where
  "calculateLinearRegression M points =
     (if length points < 2 then \<lparr>slope = 1, rSquared = 0\<rparr>
      else
        case foldl sumStep (0, 0, 0, 0, 0) points of (sumX, sumY, sumXY, sumX2, sumY2) \<Rightarrow>
        let n = ofNat M (length points);
            numeratorSlope = n * sumXY - sumX * sumY;
            denominatorSlope = n * sumX2 - sumX * sumX
        in if denominatorSlope = 0 then \<lparr>slope = 1, rSquared = 0\<rparr>
           else
             let slope = numeratorSlope / denominatorSlope;
                 numeratorR = n * sumXY - sumX * sumY;
                 denominatorR = Math_sqrt M ((n * sumX2 - sumX * sumX) * (n * sumY2 - sumY * sumY))
             in if denominatorR = 0 then \<lparr>slope = slope, rSquared = 1\<rparr>
                else
                  let r = numeratorR / denominatorR;
                      rSquared = r * r
                  in \<lparr>slope = slope, rSquared = (if isNaN M rSquared then 0 else rSquared)\<rparr>)"

text \<open>
  The denominator of the slope as \<^verbatim>\<open>calculateLinearRegression\<close> computes it, for the
  statements about the case in which it is zero.
\<close>

definition denominatorSlope ::
  "'a::{zero, one, plus, minus, times, inverse} jsMath \<Rightarrow> ('a \<times> 'a) list \<Rightarrow> 'a" where
  "denominatorSlope M points =
     (case foldl sumStep (0, 0, 0, 0, 0) points of (sumX, sumY, sumXY, sumX2, sumY2) \<Rightarrow>
        ofNat M (length points) * sumX2 - sumX * sumX)"

text \<open>\<^verbatim>\<open>calculateTrendlineSlope\<close>: the regression over the points \<open>(i, data[i])\<close>.\<close>

definition calculateTrendlineSlope ::
  "'a::{zero, one, plus, minus, times, inverse} jsMath \<Rightarrow> 'a list \<Rightarrow> 'a" where
  "calculateTrendlineSlope M data =
     (if length data < 2 then 0
      else
        let points = map (\<lambda>(i, y). (ofNat M i, y)) (enumerate 0 data);
            slope = slope (calculateLinearRegression M points)
        in if isNaN M slope then 0 else slope)"

section \<open>Data model\<close>

datatype category = Cat_none | Cat_x | Cat_minus_x | Cat_y | Cat_minus_y

record 'a CalibrationPoint =
  knownWeight :: 'a
  rawValue :: 'a

text \<open>The field \<^verbatim>\<open>id\<close> of the source is \<open>id'\<close> here.\<close>

record 'a Scale =
  id' :: int
  name :: string
  rawValue :: 'a
  tareValue :: 'a
  calibrationSlope :: 'a
  category :: category

record 'a LogEntry =
  totalX :: 'a
  totalY :: 'a
  processedValues :: "'a list"

text \<open>An element of \<^verbatim>\<open>processedScales\<close>: the object \<^verbatim>\<open>{ ...s, processedValue }\<close>.\<close>

record 'a ProcessedScale = "'a Scale" +
  processedValue :: 'a

section \<open>Channel Store\<close>

text \<open>
  The initial value of the state \<^verbatim>\<open>scales\<close>.  The argument is the configuration found in
  local storage, if there is one and it parses to an array; its elements have no
  \<^verbatim>\<open>rawValue\<close>, so the one of the argument is overwritten.
\<close>

definition defaultScales :: "'a::{zero, one} Scale list" where
  "defaultScales =
     map (\<lambda>i. \<lparr>id' = int i + 1, name = ''Scale '' @ [char_of (48 + i + 1)], rawValue = 0,
               tareValue = 0, calibrationSlope = 1, category = Cat_none\<rparr>) [0..<8]"

definition initialScales :: "'a::{zero, one} Scale list option \<Rightarrow> 'a Scale list" where
  "initialScales savedConfig =
     (case savedConfig of
        Some parsedConfig \<Rightarrow>
          if length parsedConfig = 8 then map (\<lambda>config. config\<lparr>rawValue := 0\<rparr>) parsedConfig
          else defaultScales
      | None \<Rightarrow> defaultScales)"

text \<open>
  The state update of the simulation interval.  \<open>random i\<close> is the result of the call of
  \<^verbatim>\<open>Math.random()\<close> made for the element at index \<open>i\<close>; the literals \<^verbatim>\<open>0.5\<close> and \<^verbatim>\<open>0.1\<close> are
  the quotients \<open>1 / 2\<close> and \<open>1 / 10\<close>.
\<close>

definition simulationTick ::
  "'a::{zero, one, plus, minus, times, inverse} jsMath \<Rightarrow> (nat \<Rightarrow> 'a) \<Rightarrow> 'a Scale list \<Rightarrow> 'a Scale list" where
  "simulationTick M random prevScales =
     map (\<lambda>(i, scale). scale\<lparr>rawValue := rawValue scale + (random i - 1 / ofNat M 2) * (1 / ofNat M 10)\<rparr>)
       (enumerate 0 prevScales)"

text \<open>
  The state update of an accepted line.  \<^verbatim>\<open>values[index]\<close> is read within \<open>values\<close> whenever
  \<open>prevScales\<close> has no more elements than \<open>values\<close>, which has 8.
\<close>

definition updateRaw :: "'a jsMath \<Rightarrow> 'a list \<Rightarrow> 'a Scale list \<Rightarrow> 'a Scale list" where
  "updateRaw M values prevScales =
     map (\<lambda>(index, scale). scale\<lparr>rawValue := (if index < length values then values ! index else nan M)\<rparr>)
       (enumerate 0 prevScales)"

definition handleTareAll :: "'a Scale list \<Rightarrow> 'a Scale list" where
  "handleTareAll prevScales = map (\<lambda>scale. scale\<lparr>tareValue := rawValue scale\<rparr>) prevScales"

definition handleCategoryChange :: "int \<Rightarrow> category \<Rightarrow> 'a Scale list \<Rightarrow> 'a Scale list" where
  "handleCategoryChange i newCategory prevScales =
     map (\<lambda>scale. if id' scale = i then scale\<lparr>category := newCategory\<rparr> else scale) prevScales"

definition handleApplyCalibration :: "int \<Rightarrow> 'a \<Rightarrow> 'a Scale list \<Rightarrow> 'a Scale list" where
  "handleApplyCalibration i newSlope prevScales =
     map (\<lambda>scale. if id' scale = i then scale\<lparr>calibrationSlope := newSlope\<rparr> else scale) prevScales"

section \<open>Aggregator\<close>

text \<open>
  One round of the \<^verbatim>\<open>scales.map\<close> of the \<^verbatim>\<open>useMemo\<close> that computes \<^verbatim>\<open>processedScales\<close>,
  \<^verbatim>\<open>totalX\<close> and \<^verbatim>\<open>totalY\<close>: the accumulator holds \<^verbatim>\<open>x\<close>, \<^verbatim>\<open>y\<close> and the elements mapped so far.
\<close>

definition aggregateStep ::
  "'a::{plus, minus, times} \<times> 'a \<times> 'a ProcessedScale list \<Rightarrow> 'a Scale \<Rightarrow> 'a \<times> 'a \<times> 'a ProcessedScale list" where
  "aggregateStep acc s =
     (case acc of (x, y, processed) \<Rightarrow>
        let processedValue = (rawValue s - tareValue s) * calibrationSlope s;
            xy = (case category s of
                    Cat_x \<Rightarrow> (x + processedValue, y)
                  | Cat_minus_x \<Rightarrow> (x - processedValue, y)
                  | Cat_y \<Rightarrow> (x, y + processedValue)
                  | Cat_minus_y \<Rightarrow> (x, y - processedValue)
                  | Cat_none \<Rightarrow> (x, y))
        in (fst xy, snd xy, processed @ [Scale.extend s (ProcessedScale.fields processedValue)]))"

text \<open>The result \<^verbatim>\<open>{ processedScales, totalX, totalY }\<close> is the triple in this order.\<close>

definition aggregate ::
  "'a::{zero, plus, minus, times} Scale list \<Rightarrow> 'a ProcessedScale list \<times> 'a \<times> 'a" where
  "aggregate scales =
     (case foldl aggregateStep (0, 0, []) scales of (x, y, processed) \<Rightarrow> (processed, x, y))"

section \<open>Log Buffer\<close>

definition newLogEntry :: "'a ProcessedScale list \<times> 'a \<times> 'a \<Rightarrow> 'a LogEntry" where
  "newLogEntry agg =
     (case agg of (processedScales, x, y) \<Rightarrow>
        \<lparr>totalX = x, totalY = y, processedValues = map processedValue processedScales\<rparr>)"

text \<open>
  The body of the effect that appends to the log; \<open>log'\<close> is \<^verbatim>\<open>logRef.current\<close> and the
  result is the new value of the state \<^verbatim>\<open>log\<close>.  \<^verbatim>\<open>logBufferSize\<close> is an integer: it is 100
  or a nonzero result of \<^verbatim>\<open>parseInt\<close>.
\<close>

definition logAppend :: "bool \<Rightarrow> int \<Rightarrow> 'e \<Rightarrow> 'e list \<Rightarrow> 'e list" where
  "logAppend isReadingData logBufferSize entry log' =
     (if \<not> isReadingData then log'
      else
        let updatedLog = log' @ [entry]
        in if int (length updatedLog) > logBufferSize then tl updatedLog else updatedLog)"

text \<open>
  The handler of the buffer-size input: \<^verbatim>\<open>parseInt(e.target.value) || 100\<close>, on the result
  of \<^verbatim>\<open>parseInt\<close> (\<open>None\<close> for NaN).
\<close>

definition setLogBufferSize :: "int option \<Rightarrow> int" where
  "setLogBufferSize parsed =
     (case parsed of None \<Rightarrow> 100 | Some v \<Rightarrow> if v = 0 then 100 else v)"

text \<open>
  The state the effect depends on, and the events that change it.  \<open>current\<close> is the entry
  made of the aggregate of the latest render (\<^verbatim>\<open>newLogEntry\<close> of \<^verbatim>\<open>totalX\<close>, \<^verbatim>\<open>totalY\<close> and
  \<^verbatim>\<open>processedScales\<close>); it is the entry that the effect appends.  React runs the effect after
  a render in which one of its dependencies changed: a state update of \<^verbatim>\<open>scales\<close> gives a
  new array \<^verbatim>\<open>processedScales\<close>, the buffer-size input gives a new \<^verbatim>\<open>logBufferSize\<close> unless it
  yields the value there is, and \<^verbatim>\<open>isReadingData\<close> changes when the simulation or the
  connection starts or stops.
\<close>

record 'e LogState =
  entries :: "'e list"
  logBufferSize :: int
  isReadingData :: bool
  current :: 'e

datatype 'e logEvent = ScalesUpdate 'e | BufferSizeInput "int option" | ReadingData bool

definition initialLog :: "'e \<Rightarrow> 'e LogState" where
  "initialLog entry = \<lparr>entries = [], logBufferSize = 100, isReadingData = False, current = entry\<rparr>"

definition runEffect :: "'e LogState \<Rightarrow> 'e LogState" where
  "runEffect st =
     st\<lparr>entries := logAppend (isReadingData st) (logBufferSize st) (current st) (entries st)\<rparr>"

fun onLogEvent :: "'e LogState \<Rightarrow> 'e logEvent \<Rightarrow> 'e LogState" where
  "onLogEvent st (ScalesUpdate entry) = runEffect (st\<lparr>current := entry\<rparr>)"
| "onLogEvent st (BufferSizeInput parsed) =
     (if setLogBufferSize parsed = logBufferSize st then st
      else runEffect (st\<lparr>logBufferSize := setLogBufferSize parsed\<rparr>))"
| "onLogEvent st (ReadingData reading) =
     (if reading = isReadingData st then st else runEffect (st\<lparr>isReadingData := reading\<rparr>))"

section \<open>Stability Estimator\<close>

text \<open>
  The result \<^verbatim>\<open>{ scales, totalX, totalY }\<close> is the triple in this order; \<^verbatim>\<open>log.slice(-20)\<close>
  keeps the last 20 entries, or all of them when there are fewer.
\<close>

definition stabilitySlopes ::
  "'a::{zero, one, plus, minus, times, inverse} jsMath \<Rightarrow> 'a LogEntry list \<Rightarrow> 'a list \<times> 'a \<times> 'a" where
  "stabilitySlopes M log' =
     (let recentLog = drop (length log' - 20) log'
      in if length recentLog < 2 then (replicate 8 0, 0, 0)
         else
           let scaleSlopes =
                 map (\<lambda>scaleIndex.
                        let scaleData =
                              map (\<lambda>entry. if scaleIndex < length (processedValues entry)
                                            then processedValues entry ! scaleIndex else 0) recentLog
                        in calculateTrendlineSlope M scaleData * ofNat M 100) [0..<8];
               totalXSlope = calculateTrendlineSlope M (map totalX recentLog) * ofNat M 100;
               totalYSlope = calculateTrendlineSlope M (map totalY recentLog) * ofNat M 100
           in (scaleSlopes, totalXSlope, totalYSlope))"

section \<open>Calibrator\<close>

definition regressionResult ::
  "'a::{zero, one, plus, minus, times, inverse} jsMath \<Rightarrow> 'a Scale \<Rightarrow> 'a CalibrationPoint list
     \<Rightarrow> 'a CalibrationResult" where
  "regressionResult M scale points =
     (let taredPoints = map (\<lambda>p. (knownWeight p, CalibrationPoint.rawValue p - tareValue scale)) points
      in calculateLinearRegression M taredPoints)"

text \<open>\<open>weight\<close> is \<^verbatim>\<open>parseFloat(knownWeight)\<close>; the alert of the source changes no state.\<close>

definition addPoint ::
  "'a jsMath \<Rightarrow> 'a \<Rightarrow> 'a Scale \<Rightarrow> 'a CalibrationPoint list \<Rightarrow> 'a CalibrationPoint list" where
  "addPoint M weight scale points =
     (if isNaN M weight then points
      else points @ [\<lparr>knownWeight = weight, rawValue = rawValue scale\<rparr>])"

text \<open>
  \<^verbatim>\<open>handleApply\<close>, with \<^verbatim>\<open>onApply\<close> bound to \<^verbatim>\<open>handleApplyCalibration\<close> as \<^verbatim>\<open>App\<close> binds it; the
  closing of the dialogue changes no channel.
\<close>

definition handleApply ::
  "'a::{zero, one, plus, minus, times, inverse} jsMath \<Rightarrow> 'a Scale \<Rightarrow> 'a CalibrationPoint list
     \<Rightarrow> 'a Scale list \<Rightarrow> 'a Scale list" where
  "handleApply M scale points prevScales =
     (if slope (regressionResult M scale points) \<noteq> 1
      then handleApplyCalibration (id' scale) (slope (regressionResult M scale points)) prevScales
      else prevScales)"

text \<open>
  A click on the button \<^verbatim>\<open>Apply Calibration\<close>, which is disabled while there are fewer than
  2 points: \<open>None\<close> when the click is not possible.
\<close>

definition clickApply ::
  "'a::{zero, one, plus, minus, times, inverse} jsMath \<Rightarrow> 'a Scale \<Rightarrow> 'a CalibrationPoint list
     \<Rightarrow> 'a Scale list \<Rightarrow> 'a Scale list option" where
  "clickApply M scale points prevScales =
     (if length points < 2 then None else Some (handleApply M scale points prevScales))"

section \<open>Data Source: the streamed frames\<close>

text \<open>
  A string is a list of characters.  Isabelle's characters are the code units below 256,
  so the text a \<^verbatim>\<open>TextDecoder\<close> hands to the read loop is taken to be in that range; the
  decoder itself, which turns the bytes of a chunk into text, is not part of the model.
\<close>

definition newline :: char where "newline = CHR 0x0A"
definition tab :: char where "tab = CHR 0x09"

text \<open>The white space and line terminators that \<^verbatim>\<open>trim\<close> and \<^verbatim>\<open>parseFloat\<close> skip.\<close>

definition isWhiteSpace :: "char \<Rightarrow> bool" where
  "isWhiteSpace c =
     (c = CHR 0x09 \<or> c = CHR 0x0A \<or> c = CHR 0x0B \<or> c = CHR 0x0C \<or> c = CHR 0x0D \<or> c = CHR 0x20
        \<or> c = CHR 0xA0)"

definition trim :: "string \<Rightarrow> string" where
  "trim s = rev (dropWhile isWhiteSpace (rev (dropWhile isWhiteSpace s)))"

text \<open>\<^verbatim>\<open>s.indexOf(c)\<close>, with \<open>None\<close> for \<open>-1\<close>.\<close>

fun indexOf :: "char \<Rightarrow> string \<Rightarrow> nat option" where
  "indexOf c [] = None"
| "indexOf c (d # ds) = (if d = c then Some 0 else map_option Suc (indexOf c ds))"

text \<open>\<^verbatim>\<open>s.split(sep)\<close> for a separator of one character; the result is never empty.\<close>

fun split :: "char \<Rightarrow> string \<Rightarrow> string list" where
  "split sep [] = [[]]"
| "split sep (c # cs) =
     (if c = sep then [] # split sep cs
      else (case split sep cs of f # fs \<Rightarrow> (c # f) # fs | [] \<Rightarrow> [[c]]))"

text \<open>
  The inner loop of \<^verbatim>\<open>readFromPort\<close>, which consumes the complete lines of \<^verbatim>\<open>lineBuffer\<close>.
  \<open>parseFloat\<close> is the function of that name of the language.  The result is the buffer
  that is left and the state \<^verbatim>\<open>scales\<close> after the updates the lines made.
\<close>

function processLines ::
  "'a jsMath \<Rightarrow> (string \<Rightarrow> 'a) \<Rightarrow> string \<Rightarrow> 'a Scale list \<Rightarrow> string \<times> 'a Scale list" where
  "processLines M parseFloat lineBuffer scales =
     (case indexOf newline lineBuffer of
        None \<Rightarrow> (lineBuffer, scales)
      | Some eolIndex \<Rightarrow>
          let line = trim (take eolIndex lineBuffer);
              lineBuffer' = drop (eolIndex + 1) lineBuffer
          in processLines M parseFloat lineBuffer'
               (if line \<noteq> [] then
                  let values = map parseFloat (split tab line)
                  in if length values = 8 \<and> list_all (\<lambda>v. \<not> isNaN M v) values
                     then updateRaw M values scales else scales
                else scales))"
  by pat_completeness auto
termination
  apply (relation "measure (\<lambda>(M, parseFloat, lineBuffer, scales). length lineBuffer)")
   apply simp
  apply (case_tac lineBuffer)
   apply auto
  done

text \<open>
  One round of the outer loop, for a chunk that was read and decoded, and the loop over
  the chunks that arrive until the stream is done or the read is cancelled.
\<close>

definition readChunk ::
  "'a jsMath \<Rightarrow> (string \<Rightarrow> 'a) \<Rightarrow> string \<times> 'a Scale list \<Rightarrow> string \<Rightarrow> string \<times> 'a Scale list" where
  "readChunk M parseFloat st chunk =
     (case st of (lineBuffer, scales) \<Rightarrow> processLines M parseFloat (lineBuffer @ chunk) scales)"

definition readFromPort ::
  "'a jsMath \<Rightarrow> (string \<Rightarrow> 'a) \<Rightarrow> string list \<Rightarrow> 'a Scale list \<Rightarrow> string \<times> 'a Scale list" where
  "readFromPort M parseFloat chunks scales = foldl (readChunk M parseFloat) ([], scales) chunks"

subsection \<open>\<^verbatim>\<open>parseFloat\<close> on exact numbers\<close>

text \<open>
  \<^verbatim>\<open>parseFloat\<close> as ECMA-262 defines it: leading white space is skipped, the longest prefix
  of the rest that is a \<^verbatim>\<open>StrDecimalLiteral\<close> is the numeral, and there is NaN when no
  prefix is one.  The value is the exact value of the numeral; the language rounds it to
  the nearest double.
\<close>

definition isDigit :: "char \<Rightarrow> bool" where
  "isDigit c = (48 \<le> (of_char c :: nat) \<and> (of_char c :: nat) \<le> 57)"

definition digitsValue :: "string \<Rightarrow> nat" where
  "digitsValue ds = foldl (\<lambda>v c. 10 * v + (of_char c - 48)) 0 ds"

definition power10 :: "int \<Rightarrow> real" where
  "power10 e = (if 0 \<le> e then 10 ^ nat e else 1 / 10 ^ nat (- e))"

text \<open>The value of the \<^verbatim>\<open>ExponentPart\<close> at the front of a string, 0 when there is none.\<close>

definition exponentPart :: "string \<Rightarrow> int" where
  "exponentPart s =
     (case s of
        [] \<Rightarrow> 0
      | e # r \<Rightarrow>
          if e = CHR ''e'' \<or> e = CHR ''E'' then
            (case r of
               [] \<Rightarrow> 0
             | c # r' \<Rightarrow>
                 if c = CHR ''-'' then
                   (if takeWhile isDigit r' = [] then 0 else - int (digitsValue (takeWhile isDigit r')))
                 else if c = CHR ''+'' then int (digitsValue (takeWhile isDigit r'))
                 else int (digitsValue (takeWhile isDigit r)))
          else 0)"

definition parseFloat :: "string \<Rightarrow> number" where
  "parseFloat inputString =
     (let trimmedString = dropWhile isWhiteSpace inputString;
          minus = (trimmedString \<noteq> [] \<and> hd trimmedString = CHR ''-'');
          signed = (trimmedString \<noteq> [] \<and> (hd trimmedString = CHR ''-'' \<or> hd trimmedString = CHR ''+''));
          unsigned = (if signed then tl trimmedString else trimmedString)
      in if take 8 unsigned = ''Infinity'' then infinity minus
         else
           let intDigits = takeWhile isDigit unsigned;
               afterInt = dropWhile isDigit unsigned;
               dot = (afterInt \<noteq> [] \<and> hd afterInt = CHR ''.'');
               fracDigits = (if dot then takeWhile isDigit (tl afterInt) else []);
               afterFrac = (if dot then dropWhile isDigit (tl afterInt) else afterInt)
           in if intDigits = [] \<and> fracDigits = [] then NaN
              else
                let v = real (digitsValue (intDigits @ fracDigits)) / 10 ^ length fracDigits
                          * power10 (exponentPart afterFrac)
                in Num (if minus then - v else v))"

section \<open>Closed forms of the specification\<close>

text \<open>
  The ordinary-least-squares slope \<open>(n\<cdot>Sxy - Sx\<cdot>Sy) / (n\<cdot>Sxx - Sx\<^sup>2)\<close> as the specification
  writes it, once in the arithmetic of exact numbers and once on reals, for points that
  are finite.
\<close>

definition olsSlope :: "(number \<times> number) list \<Rightarrow> number" where
  "olsSlope pts =
     (let n = Num (real (length pts));
          Sx = (\<Sum>p\<leftarrow>pts. fst p);
          Sy = (\<Sum>p\<leftarrow>pts. snd p);
          Sxy = (\<Sum>p\<leftarrow>pts. fst p * snd p);
          Sxx = (\<Sum>p\<leftarrow>pts. fst p * fst p)
      in (n * Sxy - Sx * Sy) / (n * Sxx - Sx * Sx))"

definition olsSlopeReal :: "(real \<times> real) list \<Rightarrow> real" where
  "olsSlopeReal pts =
     (let n = real (length pts);
          Sx = (\<Sum>p\<leftarrow>pts. fst p);
          Sy = (\<Sum>p\<leftarrow>pts. snd p);
          Sxy = (\<Sum>p\<leftarrow>pts. fst p * snd p);
          Sxx = (\<Sum>p\<leftarrow>pts. fst p * fst p)
      in (n * Sxy - Sx * Sy) / (n * Sxx - Sx\<^sup>2))"

definition numPair :: "real \<times> real \<Rightarrow> number \<times> number" where
  "numPair p = (Num (fst p), Num (snd p))"

text \<open>A number is finite when it is \<open>Num r\<close>.\<close>

fun finite_number :: "number \<Rightarrow> bool" where
  "finite_number (Num r) = True"
| "finite_number _ = False"

fun nan_or_pinf :: "number \<Rightarrow> bool" where
  "nan_or_pinf NaN = True"
| "nan_or_pinf PInf = True"
| "nan_or_pinf _ = False"

text \<open>
  The processed value of a channel as the specification derives it, and the element of
  \<^verbatim>\<open>processedScales\<close> that carries it.
\<close>

definition processedValueOf :: "'a::{minus, times} Scale \<Rightarrow> 'a" where
  "processedValueOf s = (rawValue s - tareValue s) * calibrationSlope s"

definition withProcessedValue :: "'a::{minus, times} Scale \<Rightarrow> 'a ProcessedScale" where
  "withProcessedValue s = Scale.extend s (ProcessedScale.fields (processedValueOf s))"

text \<open>
  The log after the appends of the entries \<open>es\<close>, in this order, to the empty log, while
  data is read and the buffer size is \<open>C\<close> throughout.
\<close>

definition appendAll :: "int \<Rightarrow> 'e list \<Rightarrow> 'e list" where
  "appendAll C es = foldl (\<lambda>log' e. logAppend True C e log') [] es"

text \<open>The invariant of the specification: the log is no longer than the buffer size.\<close>

definition logInvariant :: "'e LogState \<Rightarrow> bool" where
  "logInvariant st = (int (length (entries st)) \<le> logBufferSize st)"

text \<open>
  The state of the log after a sequence of events, from the initial state, in which
  \<open>entry\<close> is the entry of the first aggregate.
\<close>

definition logRun :: "'e \<Rightarrow> 'e logEvent list \<Rightarrow> 'e LogState" where
  "logRun entry evs = foldl onLogEvent (initialLog entry) evs"

text \<open>
  The pieces of the Stability Estimator as the specification names them: the trailing
  window, the \<open>(tickIndex, value)\<close> pairs of a sequence, the sequence of a channel in a
  window, and the slope of a sequence in units per 100 ticks, which is the slope of the
  regression with NaN replaced by 0, times 100.
\<close>

definition recentLog :: "'e list \<Rightarrow> 'e list" where
  "recentLog log' = drop (length log' - 20) log'"

definition indexed :: "'a jsMath \<Rightarrow> 'a list \<Rightarrow> ('a \<times> 'a) list" where
  "indexed M data = map (\<lambda>(i, y). (ofNat M i, y)) (enumerate 0 data)"

definition channelData :: "nat \<Rightarrow> 'a::zero LogEntry list \<Rightarrow> 'a list" where
  "channelData i window =
     map (\<lambda>entry. if i < length (processedValues entry) then processedValues entry ! i else 0) window"

definition nanToZero :: "'a::zero jsMath \<Rightarrow> 'a \<Rightarrow> 'a" where
  "nanToZero M v = (if isNaN M v then 0 else v)"

definition trend :: "'a::{zero, one, plus, minus, times, inverse} jsMath \<Rightarrow> 'a list \<Rightarrow> 'a" where
  "trend M data = nanToZero M (slope (calculateLinearRegression M (indexed M data))) * ofNat M 100"

text \<open>The sequence \<open>a, a + d, \<dots>, a + (k - 1)\<cdot>d\<close> of finite numbers.\<close>

definition arithmeticSequence :: "real \<Rightarrow> real \<Rightarrow> nat \<Rightarrow> number list" where
  "arithmeticSequence a d k = map (\<lambda>j. Num (a + real j * d)) [0..<k]"

text \<open>
  What one complete line does to the channels, as a function of its own: the values of
  the line when it is accepted, and the state \<^verbatim>\<open>scales\<close> after the line.
\<close>

definition decodeLine :: "'a jsMath \<Rightarrow> (string \<Rightarrow> 'a) \<Rightarrow> string \<Rightarrow> 'a list option" where
  "decodeLine M parse rawLine =
     (let line = trim rawLine;
          values = map parse (split tab line)
      in if line \<noteq> [] \<and> length values = 8 \<and> list_all (\<lambda>v. \<not> isNaN M v) values
         then Some values else None)"

definition onLine :: "'a jsMath \<Rightarrow> (string \<Rightarrow> 'a) \<Rightarrow> 'a Scale list \<Rightarrow> string \<Rightarrow> 'a Scale list" where
  "onLine M parse scales rawLine =
     (case decodeLine M parse rawLine of
        Some values \<Rightarrow> updateRaw M values scales
      | None \<Rightarrow> scales)"

text \<open>
  The condition of the specification for a line to be accepted: splitting the line at
  the tabs gives exactly 8 fields, and each of them parses as a number.
\<close>

definition splitsToEightNumbers :: "'a jsMath \<Rightarrow> (string \<Rightarrow> 'a) \<Rightarrow> string \<Rightarrow> bool" where
  "splitsToEightNumbers M parse rawLine =
     (length (split tab rawLine) = 8 \<and> list_all (\<lambda>f. \<not> isNaN M (parse f)) (split tab rawLine))"

text \<open>Tokens joined by tabs, and the frame a device sends for them.\<close>

fun tabJoin :: "string list \<Rightarrow> string" where
  "tabJoin [] = []"
| "tabJoin [t] = t"
| "tabJoin (t # ts) = t @ tab # tabJoin ts"

definition frame :: "string list \<Rightarrow> string" where
  "frame tokens = tabJoin tokens @ [newline]"

definition sampleTokens :: "string list" where
  "sampleTokens = [''0.5'', ''1'', ''1.5'', ''2'', ''2.5'', ''3'', ''3.5'', ''4'']"

text \<open>
  The part of the channels that \<^verbatim>\<open>saveConfigToLocalStorage\<close> writes: every field but
  \<^verbatim>\<open>rawValue\<close>.
\<close>

definition scalesConfig :: "'a Scale list \<Rightarrow> (int \<times> string \<times> 'a \<times> 'a \<times> category) list" where
  "scalesConfig scalesToSave =
     map (\<lambda>s. (id' s, name s, tareValue s, calibrationSlope s, category s)) scalesToSave"

section \<open>Properties of the Regression Engine\<close>

subsection \<open>Arithmetic of exact numbers\<close>

lemma Num_arith [simp]:
  "Num a + Num b = Num (a + b)"
  "Num a - Num b = Num (a - b)"
  "Num a * Num b = Num (a * b)"
  "b \<noteq> 0 \<Longrightarrow> Num a / Num b = Num (a / b)"
  "- Num a = Num (- a)"
  by (simp_all add: plus_number_def minus_number_def times_number_def divide_number_def
      uminus_number_def)

lemma Num_0_1 [simp]: "(0::number) = Num 0" "(1::number) = Num 1"
  by (simp_all add: zero_number_def one_number_def)

lemma exact_simps [simp]:
  "ofNat exact n = Num (real n)"
  "isNaN exact v = (v = NaN)"
  "Math_sqrt exact = sqrt_number"
  "nan exact = NaN"
  by (simp_all add: exact_def)

lemma add_not_finite: "\<not> finite_number a \<or> \<not> finite_number b \<Longrightarrow> \<not> finite_number (a + b)"
  by (cases a; cases b) (simp_all add: plus_number_def)

lemma sum_list_not_finite:
  "\<exists>x\<in>set xs. \<not> finite_number x \<Longrightarrow> \<not> finite_number (sum_list xs)"
  by (induction xs) (auto simp: add_not_finite simp del: Num_0_1)

lemma square_cases: "finite_number (x * x) \<or> nan_or_pinf (x * x)"
  by (cases x) (simp_all add: times_number_def infinity_def)

lemma square_not_finite: "\<not> finite_number x \<Longrightarrow> nan_or_pinf (x * x)"
  by (cases x) (simp_all add: times_number_def infinity_def)

lemma add_nan_or_pinf:
  "nan_or_pinf a \<Longrightarrow> finite_number b \<or> nan_or_pinf b \<Longrightarrow> nan_or_pinf (a + b)"
  "finite_number a \<or> nan_or_pinf a \<Longrightarrow> nan_or_pinf b \<Longrightarrow> nan_or_pinf (a + b)"
  by (cases a; cases b; simp add: plus_number_def)+

lemma sum_squares_cases:
  "finite_number (\<Sum>x\<leftarrow>xs. x * x) \<or> nan_or_pinf (\<Sum>x\<leftarrow>xs. x * x)"
proof (induction xs)
  case Nil
  show ?case by (simp del: Num_0_1 add: zero_number_def)
next
  case (Cons x xs)
  from square_cases [of x] Cons show ?case
    by (cases "x * x"; cases "(\<Sum>x\<leftarrow>xs. x * x)") (auto simp: plus_number_def)
qed

lemma sum_squares_not_finite:
  "\<exists>x\<in>set xs. \<not> finite_number x \<Longrightarrow> nan_or_pinf (\<Sum>x\<leftarrow>xs. x * x)"
proof (induction xs)
  case Nil
  then show ?case by simp
next
  case (Cons x xs)
  show ?case
  proof (cases "finite_number x")
    case True
    with Cons have "nan_or_pinf (\<Sum>x\<leftarrow>xs. x * x)" by auto
    moreover from True have "finite_number (x * x)" by (cases x) simp_all
    ultimately show ?thesis by (simp add: add_nan_or_pinf)
  next
    case False
    then have "nan_or_pinf (x * x)" by (rule square_not_finite)
    with sum_squares_cases [of xs] show ?thesis by (simp add: add_nan_or_pinf)
  qed
qed

lemma denominator_nan:
  assumes "nan_or_pinf a" and "\<not> finite_number s" and "0 < k"
  shows "Num k * a - s * s = NaN"
  using assms
  by (cases a; cases s) (simp_all add: times_number_def minus_number_def infinity_def)

lemma sum_list_Num: "sum_list (map Num rs) = Num (sum_list rs)"
  by (induction rs) simp_all

lemma sum_squares_Num: "(\<Sum>r\<leftarrow>rs. Num (r * r)) = Num (\<Sum>r\<leftarrow>rs. r * r)"
  by (induction rs) simp_all

lemma all_finite_map_Num: "\<forall>x\<in>set xs. finite_number x \<Longrightarrow> \<exists>rs. xs = map Num rs"
proof (induction xs)
  case Nil
  then show ?case by simp
next
  case (Cons x xs)
  then obtain rs where "xs = map Num rs" by auto
  moreover from Cons.prems obtain r where "x = Num r" by (cases x) auto
  ultimately have "x # xs = map Num (r # rs)" by simp
  then show ?case ..
qed

subsection \<open>The sums of the regression\<close>

lemma foldl_sumStep:
  fixes a :: "'a::{comm_monoid_add, times}"
  shows "foldl sumStep (a, b, c, d, e) pts =
     (a + (\<Sum>p\<leftarrow>pts. fst p), b + (\<Sum>p\<leftarrow>pts. snd p), c + (\<Sum>p\<leftarrow>pts. fst p * snd p),
      d + (\<Sum>p\<leftarrow>pts. fst p * fst p), e + (\<Sum>p\<leftarrow>pts. snd p * snd p))"
  by (induction pts arbitrary: a b c d e) (simp_all add: sumStep_def add.assoc split: prod.splits)

lemma sum_sq_dev:
  fixes m :: real
  shows "(\<Sum>x\<leftarrow>xs. (x - m) * (x - m)) = (\<Sum>x\<leftarrow>xs. x * x) - 2 * m * sum_list xs + real (length xs) * m * m"
  by (induction xs) (simp_all add: algebra_simps)

lemma variance_zero_imp_equal:
  fixes xs :: "real list"
  assumes "real (length xs) * (\<Sum>x\<leftarrow>xs. x * x) - sum_list xs * sum_list xs = 0"
    and "a \<in> set xs" and "b \<in> set xs"
  shows "a = b"
proof -
  let ?n = "real (length xs)"
  have npos: "?n > 0" using assms(2) by (cases xs) auto
  define m where "m = sum_list xs / ?n"
  have sm: "sum_list xs = ?n * m" using npos by (simp add: m_def)
  have "?n * (\<Sum>x\<leftarrow>xs. (x - m) * (x - m)) = ?n * (\<Sum>x\<leftarrow>xs. x * x) - sum_list xs * sum_list xs"
    unfolding sum_sq_dev sm by (simp add: algebra_simps)
  with assms(1) npos have z: "(\<Sum>x\<leftarrow>xs. (x - m) * (x - m)) = 0" by simp
  have "\<forall>y \<in> set (map (\<lambda>x. (x - m) * (x - m)) xs). y = 0"
    using z by (subst (asm) sum_list_nonneg_eq_0_iff) auto
  then have "\<And>x. x \<in> set xs \<Longrightarrow> x = m" by auto
  with assms(2,3) show ?thesis by blast
qed

lemma equal_imp_variance_zero:
  fixes xs :: "real list"
  assumes "\<forall>x\<in>set xs. x = c"
  shows "real (length xs) * (\<Sum>x\<leftarrow>xs. x * x) - sum_list xs * sum_list xs = 0"
proof -
  from assms have "xs = replicate (length xs) c"
    by (simp add: replicate_length_same)
  then obtain k where xs: "xs = replicate k c" ..
  have "sum_list (replicate k c) = real k * c" by (induction k) (simp_all add: algebra_simps)
  moreover have "(\<Sum>x\<leftarrow>replicate k c. x * x) = real k * (c * c)"
    by (induction k) (simp_all add: algebra_simps)
  ultimately show ?thesis unfolding xs by simp
qed

text \<open>The denominator of the slope is not zero when two of the x differ.\<close>

lemma denominatorSlope_nonzero:
  fixes xs :: "number list"
  assumes "a \<in> set xs" and "b \<in> set xs" and "a \<noteq> b"
  shows "Num (real (length xs)) * (\<Sum>x\<leftarrow>xs. x * x) - sum_list xs * sum_list xs \<noteq> Num 0"
proof (cases "\<forall>x\<in>set xs. finite_number x")
  case True
  then obtain rs where xs: "xs = map Num rs" using all_finite_map_Num by blast
  from assms obtain r s where "r \<in> set rs" "s \<in> set rs" "r \<noteq> s" unfolding xs by auto
  with variance_zero_imp_equal [of rs r s]
  have "real (length rs) * (\<Sum>x\<leftarrow>rs. x * x) - sum_list rs * sum_list rs \<noteq> 0" by blast
  then show ?thesis by (simp add: xs sum_list_Num sum_squares_Num comp_def)
next
  case False
  then have ex: "\<exists>x\<in>set xs. \<not> finite_number x" by blast
  have "0 < real (length xs)" using assms(1) by (cases xs) auto
  from denominator_nan [OF sum_squares_not_finite [OF ex] sum_list_not_finite [OF ex] this]
  show ?thesis by simp
qed

lemma sqrt_144: "sqrt 144 = 12"
  using real_sqrt_abs2 [of 12] by simp

lemma regression_slope:
  assumes "2 \<le> length pts"
    and "Num (real (length pts)) * (\<Sum>p\<leftarrow>pts. fst p * fst p) - (\<Sum>p\<leftarrow>pts. fst p) * (\<Sum>p\<leftarrow>pts. fst p) \<noteq> Num 0"
  shows "slope (calculateLinearRegression exact pts) = olsSlope pts"
  using assms
  by (simp add: calculateLinearRegression_def foldl_sumStep Let_def olsSlope_def del: Num_0_1)
    (simp add: zero_number_def)

lemma olsSlope_real:
  assumes "real (length rs) * (\<Sum>p\<leftarrow>rs. fst p * fst p) - (\<Sum>p\<leftarrow>rs. fst p)\<^sup>2 \<noteq> 0"
  shows "olsSlope (map numPair rs) = Num (olsSlopeReal rs)"
proof -
  have s: "(\<Sum>p\<leftarrow>rs. Num (f p)) = Num (\<Sum>p\<leftarrow>rs. f p)" for f :: "real \<times> real \<Rightarrow> real"
    by (induction rs) simp_all
  show ?thesis using assms
    by (simp add: olsSlope_def olsSlopeReal_def numPair_def comp_def s Let_def power2_eq_square)
qed

lemma regression_slope_real:
  assumes "2 \<le> length rs" and "r \<in> set (map fst rs)" and "s \<in> set (map fst rs)" and "r \<noteq> s"
  shows "slope (calculateLinearRegression exact (map numPair rs)) = Num (olsSlopeReal rs)"
proof -
  have "Num r \<in> set (map fst (map numPair rs))" "Num s \<in> set (map fst (map numPair rs))"
    using assms(2,3) by (auto simp: numPair_def)
  moreover have "Num r \<noteq> Num s" using assms(4) by simp
  ultimately have "Num (real (length (map fst (map numPair rs))))
        * (\<Sum>x\<leftarrow>map fst (map numPair rs). x * x)
        - sum_list (map fst (map numPair rs)) * sum_list (map fst (map numPair rs)) \<noteq> Num 0"
    by (rule denominatorSlope_nonzero)
  then have "Num (real (length (map numPair rs))) * (\<Sum>p\<leftarrow>map numPair rs. fst p * fst p)
        - (\<Sum>p\<leftarrow>map numPair rs. fst p) * (\<Sum>p\<leftarrow>map numPair rs. fst p) \<noteq> Num 0"
    by (simp add: comp_def)
  with assms(1) have "slope (calculateLinearRegression exact (map numPair rs)) = olsSlope (map numPair rs)"
    by (intro regression_slope) simp_all
  moreover have "real (length rs) * (\<Sum>p\<leftarrow>rs. fst p * fst p) - (\<Sum>p\<leftarrow>rs. fst p)\<^sup>2 \<noteq> 0"
    using variance_zero_imp_equal [of "map fst rs" r s] assms(2-4)
    by (auto simp: comp_def power2_eq_square)
  ultimately show ?thesis by (simp add: olsSlope_real)
qed

text \<open>
  Without rounding the slope is the closed-form ordinary-least-squares slope
  \<open>(n\<cdot>Sxy - Sx\<cdot>Sy) / (n\<cdot>Sxx - Sx\<^sup>2)\<close> for every list of at least 2 points whose x-values are not
  all equal; for finite points this is the number of the same formula on reals.
\<close>

lemma ols_slope_without_rounding:
  assumes "2 \<le> length pts" and "\<exists>p\<in>set pts. \<exists>q\<in>set pts. fst p \<noteq> fst q"
  shows "slope (calculateLinearRegression exact pts) = olsSlope pts
       \<and> (\<forall>rs. pts = map numPair rs \<longrightarrow>
             slope (calculateLinearRegression exact pts) = Num (olsSlopeReal rs))
       \<and> calculateLinearRegression exact [(Num 0, Num 0), (Num 1, Num 2), (Num 2, Num 4)]
            = \<lparr>slope = Num 2, rSquared = Num 1\<rparr>"
proof (intro conjI allI impI)
  from assms(2) obtain a b where "a \<in> set (map fst pts)" "b \<in> set (map fst pts)" "a \<noteq> b"
    by auto
  from denominatorSlope_nonzero [OF this]
  have "Num (real (length pts)) * (\<Sum>p\<leftarrow>pts. fst p * fst p) - (\<Sum>p\<leftarrow>pts. fst p) * (\<Sum>p\<leftarrow>pts. fst p) \<noteq> Num 0"
    by (simp add: comp_def)
  with assms(1) show code: "slope (calculateLinearRegression exact pts) = olsSlope pts"
    by (rule regression_slope)
  fix rs
  assume pts: "pts = map numPair rs"
  from assms(2) obtain r s where "r \<in> set (map fst rs)" "s \<in> set (map fst rs)" "r \<noteq> s"
    unfolding pts by (auto simp: numPair_def)
  with assms(1) show "slope (calculateLinearRegression exact pts) = Num (olsSlopeReal rs)"
    unfolding pts by (intro regression_slope_real) simp_all
next
  show "calculateLinearRegression exact [(Num 0, Num 0), (Num 1, Num 2), (Num 2, Num 4)]
            = \<lparr>slope = Num 2, rSquared = Num 1\<rparr>"
    by (simp add: calculateLinearRegression_def sumStep_def Let_def sqrt_144)
qed

subsection \<open>The regression on doubles\<close>

declare isqrt.simps [simp del]

lemma isqrt_bounds:
  "0 \<le> n \<Longrightarrow> isqrt n * isqrt n \<le> n \<and> n < (isqrt n + 1) * (isqrt n + 1)"
proof (induction n rule: isqrt.induct)
  case (1 n)
  show ?case
  proof (cases "n < 2")
    case True
    with "1.prems" have "n = 0 \<or> n = 1" by auto
    then show ?thesis by (auto simp: isqrt.simps [of 0] isqrt.simps [of 1])
  next
    case False
    define s where "s = isqrt (n div 4)"
    have ih: "s * s \<le> n div 4 \<and> n div 4 < (s + 1) * (s + 1)"
      using "1.IH" [OF False] "1.prems" False unfolding s_def by simp
    have eq: "isqrt n = (if (2 * s + 1) * (2 * s + 1) \<le> n then 2 * s + 1 else 2 * s)"
      using False by (subst isqrt.simps) (simp add: s_def Let_def)
    have a: "4 * (s * s) \<le> n" using ih by linarith
    have "n div 4 + 1 \<le> (s + 1) * (s + 1)" using ih by linarith
    then have b: "n < 4 * ((s + 1) * (s + 1))" by linarith
    show ?thesis using a b unfolding eq by (auto simp: algebra_simps)
  qed
qed

text \<open>
  Known answers of IEEE 754 arithmetic: \<^verbatim>\<open>0.3\<close>, \<^verbatim>\<open>0.1 + 0.2\<close> (which is not \<^verbatim>\<open>0.3\<close>), \<^verbatim>\<open>1 / 3\<close>,
  \<^verbatim>\<open>Math.sqrt(2)\<close>, and the two ties \<open>2\<^sup>5\<^sup>3 + 1\<close> and \<open>2\<^sup>5\<^sup>3 + 3\<close>, which go to the even
  significand.
\<close>

lemma double_known_answers:
  "dbl 0 = 0"
  "dbl 1 = 1"
  "dbl 3 / dbl 10 = DFin 5404319552844595 (- 54)"
  "dbl 1 / dbl 10 + dbl 2 / dbl 10 = DFin 5404319552844596 (- 54)"
  "dbl 1 / dbl 3 = DFin 6004799503160661 (- 54)"
  "Math_sqrt binary64 (dbl 2) = DFin 6369051672525773 (- 52)"
  "dbl (2 ^ 53 + 1) = DFin (2 ^ 52) 1"
  "dbl (2 ^ 53 + 3) = DFin (2 ^ 52 + 2) 1"
  by code_simp+

lemma dbl_integers:
  "dbl 94906267 = DFin (94906267 * 2 ^ 26) (- 26)"
  "dbl 94906269 = DFin (94906269 * 2 ^ 26) (- 26)"
  "dbl 4 = DFin (2 ^ 52) (- 50)"
  by code_simp+

text \<open>
  C1.  The code at the failing input, the two points \<open>(94906267, 0)\<close> and \<open>(94906269, 4)\<close>.
  Their x-values differ and all four numbers are doubles, so the closed-form slope is that
  of the points themselves: it is 2.  The program computes \<^verbatim>\<open>n * sumX2\<close> and
  \<^verbatim>\<open>sumX * sumX\<close>, which round to the same double; their difference is 0, the test
  \<^verbatim>\<open>denominatorSlope === 0\<close> succeeds and the result is slope 1 and rSquared 0.  On the
  example of the claim, the points \<open>(0,0)\<close>, \<open>(1,2)\<close>, \<open>(2,4)\<close>, the program returns slope 2
  and rSquared 1.
\<close>

theorem C1_slope_not_ols:
  "calculateLinearRegression binary64 [(dbl 94906267, dbl 0), (dbl 94906269, dbl 4)]
     = \<lparr>slope = dbl 1, rSquared = dbl 0\<rparr>
   \<and> denominatorSlope binary64 [(dbl 94906267, dbl 0), (dbl 94906269, dbl 4)] = dbl 0
   \<and> olsSlopeReal (map (\<lambda>(x, y). (valueOf x, valueOf y))
          [(dbl 94906267, dbl 0), (dbl 94906269, dbl 4)]) = 2
   \<and> valueOf (dbl 1) = 1
   \<and> calculateLinearRegression binary64 [(dbl 0, dbl 0), (dbl 1, dbl 2), (dbl 2, dbl 4)]
     = \<lparr>slope = dbl 2, rSquared = dbl 1\<rparr>"
proof -
  have code: "calculateLinearRegression binary64 [(dbl 94906267, dbl 0), (dbl 94906269, dbl 4)]
      = \<lparr>slope = dbl 1, rSquared = dbl 0\<rparr>"
    by code_simp
  have den: "denominatorSlope binary64 [(dbl 94906267, dbl 0), (dbl 94906269, dbl 4)] = dbl 0"
    by code_simp
  have ols: "olsSlopeReal (map (\<lambda>(x, y). (valueOf x, valueOf y))
      [(dbl 94906267, dbl 0), (dbl 94906269, dbl 4)]) = 2"
    by (simp add: dbl_integers double_known_answers zero_double_def olsSlopeReal_def)
  have one: "valueOf (dbl 1) = 1"
    by (simp add: double_known_answers one_double_def)
  have example: "calculateLinearRegression binary64 [(dbl 0, dbl 0), (dbl 1, dbl 2), (dbl 2, dbl 4)]
      = \<lparr>slope = dbl 2, rSquared = dbl 1\<rparr>"
    by code_simp
  from code den ols one example show ?thesis by (intro conjI)
qed

lemma regression_few_points:
  "length pts < 2 \<Longrightarrow> calculateLinearRegression M pts = \<lparr>slope = 1, rSquared = 0\<rparr>"
  by (simp add: calculateLinearRegression_def)

lemma regression_denominator_zero:
  assumes "denominatorSlope M pts = 0"
  shows "calculateLinearRegression M pts = \<lparr>slope = 1, rSquared = 0\<rparr>"
proof -
  obtain a b c d e where f: "foldl sumStep (0, 0, 0, 0, 0) pts = (a, b, c, d, e)"
    by (metis prod_cases5)
  with assms show ?thesis
    by (simp add: calculateLinearRegression_def denominatorSlope_def Let_def)
qed

lemma denominatorSlope_exact:
  "denominatorSlope exact pts =
     Num (real (length pts)) * (\<Sum>p\<leftarrow>pts. fst p * fst p) - (\<Sum>p\<leftarrow>pts. fst p) * (\<Sum>p\<leftarrow>pts. fst p)"
  by (simp add: denominatorSlope_def foldl_sumStep del: Num_0_1)

lemma sums_equal_x:
  assumes "\<forall>p\<in>set pts. fst p = Num c"
  shows "(\<Sum>p\<leftarrow>pts. fst p) = Num (real (length pts) * c)
       \<and> (\<Sum>p\<leftarrow>pts. fst p * fst p) = Num (real (length pts) * (c * c))"
  using assms by (induction pts) (simp_all add: algebra_simps)

lemma denominatorSlope_equal_x:
  assumes "\<forall>p\<in>set pts. fst p = Num c"
  shows "denominatorSlope exact pts = 0"
  using sums_equal_x [OF assms] by (simp add: denominatorSlope_exact)

lemma regression_finite:
  assumes "\<forall>p\<in>set pts. finite_number (fst p) \<and> finite_number (snd p)"
  shows "finite_number (slope (calculateLinearRegression exact pts))
       \<and> finite_number (rSquared (calculateLinearRegression exact pts))"
proof -
  have "\<exists>rs. pts = map numPair rs"
    using assms
  proof (induction pts)
    case Nil
    then show ?case by simp
  next
    case (Cons p pts)
    then obtain rs where "pts = map numPair rs" by auto
    moreover from Cons.prems obtain a b where "p = numPair (a, b)"
      by (cases p; cases "fst p"; cases "snd p") (auto simp: numPair_def)
    ultimately have "p # pts = map numPair ((a, b) # rs)" by simp
    then show ?case ..
  qed
  then obtain rs where pts: "pts = map numPair rs" ..
  have s: "(\<Sum>p\<leftarrow>rs. Num (f p)) = Num (\<Sum>p\<leftarrow>rs. f p)" for f :: "real \<times> real \<Rightarrow> real"
    by (induction rs) simp_all
  show ?thesis
    unfolding pts
    by (simp add: calculateLinearRegression_def foldl_sumStep Let_def numPair_def comp_def s
        del: Num_0_1)
       (auto simp: zero_number_def one_number_def times_number_def divide_number_def)
qed

text \<open>
  In any arithmetic the result is \<open>(slope = 1, rSquared = 0)\<close> for fewer than 2 points and
  whenever the denominator of the slope, as it is computed, is zero.  Without rounding
  the denominator is zero when all points share one finite x, and the result for finite
  points is a pair of finite numbers.
\<close>

lemma regression_degenerate:
  "(length pts < 2 \<longrightarrow> calculateLinearRegression M pts = \<lparr>slope = 1, rSquared = 0\<rparr>)
   \<and> (denominatorSlope M pts = 0 \<longrightarrow> calculateLinearRegression M pts = \<lparr>slope = 1, rSquared = 0\<rparr>)
   \<and> ((\<forall>p\<in>set qs. fst p = Num c) \<longrightarrow>
         calculateLinearRegression exact qs = \<lparr>slope = Num 1, rSquared = Num 0\<rparr>)
   \<and> ((\<forall>p\<in>set qs. finite_number (fst p) \<and> finite_number (snd p)) \<longrightarrow>
         finite_number (slope (calculateLinearRegression exact qs))
         \<and> finite_number (rSquared (calculateLinearRegression exact qs)))"
  using regression_few_points [of pts M] regression_denominator_zero [of M pts]
    regression_denominator_zero [OF denominatorSlope_equal_x, of qs c] regression_finite [of qs]
  by simp

text \<open>
  C2.  The code at the failing input, three points that share the x-value \<^verbatim>\<open>0.3\<close>, with
  the y-values 1, 2 and 3.  The denominator of the slope that the program computes is not
  zero: \<^verbatim>\<open>3 * sumX2\<close> and \<^verbatim>\<open>sumX * sumX\<close> are rounded and differ by \<open>2\<^sup>-\<^sup>5\<^sup>2\<close>.  The test
  \<^verbatim>\<open>denominatorSlope === 0\<close> fails and the result is slope 0 and rSquared 0, where the claim
  has slope 1.  With fewer than 2 points, and with points that share an x-value for which
  no operation rounds (here 5), the result is slope 1 and rSquared 0.
\<close>

theorem C2_same_x_slope_zero:
  "calculateLinearRegression binary64
       [(dbl 3 / dbl 10, dbl 1), (dbl 3 / dbl 10, dbl 2), (dbl 3 / dbl 10, dbl 3)]
     = \<lparr>slope = dbl 0, rSquared = dbl 0\<rparr>
   \<and> denominatorSlope binary64
       [(dbl 3 / dbl 10, dbl 1), (dbl 3 / dbl 10, dbl 2), (dbl 3 / dbl 10, dbl 3)]
     = DFin (2 ^ 52) (- 104)
   \<and> dbl 0 \<noteq> dbl 1
   \<and> calculateLinearRegression binary64 [] = \<lparr>slope = dbl 1, rSquared = dbl 0\<rparr>
   \<and> calculateLinearRegression binary64 [p] = \<lparr>slope = dbl 1, rSquared = dbl 0\<rparr>
   \<and> calculateLinearRegression binary64 [(dbl 5, dbl 1), (dbl 5, dbl 2), (dbl 5, dbl 3)]
     = \<lparr>slope = dbl 1, rSquared = dbl 0\<rparr>"
proof -
  have code: "calculateLinearRegression binary64
      [(dbl 3 / dbl 10, dbl 1), (dbl 3 / dbl 10, dbl 2), (dbl 3 / dbl 10, dbl 3)]
      = \<lparr>slope = dbl 0, rSquared = dbl 0\<rparr>"
    by code_simp
  have den: "denominatorSlope binary64
      [(dbl 3 / dbl 10, dbl 1), (dbl 3 / dbl 10, dbl 2), (dbl 3 / dbl 10, dbl 3)]
      = DFin (2 ^ 52) (- 104)"
    by code_simp
  have differ: "dbl 0 \<noteq> dbl 1"
    by code_simp
  have few: "calculateLinearRegression binary64 [] = \<lparr>slope = dbl 1, rSquared = dbl 0\<rparr>"
    "calculateLinearRegression binary64 [p] = \<lparr>slope = dbl 1, rSquared = dbl 0\<rparr>"
    by (simp_all add: regression_few_points double_known_answers)
  have exact_x: "calculateLinearRegression binary64 [(dbl 5, dbl 1), (dbl 5, dbl 2), (dbl 5, dbl 3)]
      = \<lparr>slope = dbl 1, rSquared = dbl 0\<rparr>"
    by code_simp
  from code den differ few exact_x show ?thesis by (intro conjI)
qed

section \<open>Properties of the Aggregator\<close>

lemma add_Num_0 [simp]: "x + Num 0 = x" "Num 0 + x = x"
  by (cases x; simp add: plus_number_def)+

lemma aggregate_eq:
  "aggregate scales =
     (snd (snd (foldl aggregateStep (0, 0, []) scales)), fst (foldl aggregateStep (0, 0, []) scales),
      fst (snd (foldl aggregateStep (0, 0, []) scales)))"
  by (simp add: aggregate_def split: prod.splits)

lemma minus_number: "(a::number) - b = a + - b"
  by (simp add: minus_number_def plus_number_def uminus_number_def)


lemma aggregateStep_tuple:
  "aggregateStep (x, y, processed) s =
     (case category s of
        Cat_x \<Rightarrow> (x + processedValueOf s, y, processed @ [withProcessedValue s])
      | Cat_minus_x \<Rightarrow> (x - processedValueOf s, y, processed @ [withProcessedValue s])
      | Cat_y \<Rightarrow> (x, y + processedValueOf s, processed @ [withProcessedValue s])
      | Cat_minus_y \<Rightarrow> (x, y - processedValueOf s, processed @ [withProcessedValue s])
      | Cat_none \<Rightarrow> (x, y, processed @ [withProcessedValue s]))"
  by (simp add: aggregateStep_def Let_def withProcessedValue_def processedValueOf_def
      split: category.splits)


lemma processedValue_with [simp]: "processedValue (withProcessedValue s) = processedValueOf s"
  by (simp add: withProcessedValue_def Scale.extend_def ProcessedScale.fields_def)







section \<open>Properties of the Log Buffer\<close>

lemma appendAll_snoc: "appendAll C (es @ [e]) = logAppend True C e (appendAll C es)"
  by (simp add: appendAll_def)

lemma appendAll_eq:
  assumes "1 \<le> C"
  shows "appendAll C es = drop (length es - nat C) es"
proof (induction es rule: rev_induct)
  case Nil
  show ?case by (simp add: appendAll_def)
next
  case (snoc e es)
  show ?case
  proof (cases "nat C \<le> length es")
    case True
    then have ne: "drop (length es - nat C) es \<noteq> []" using assms by simp
    have len: "length (drop (length es - nat C) es) = nat C" using True by simp
    have "logAppend True C e (drop (length es - nat C) es) = tl (drop (length es - nat C) es @ [e])"
      using assms len by (simp add: logAppend_def Let_def)
    also have "\<dots> = tl (drop (length es - nat C) es) @ [e]" using ne by simp
    also have "\<dots> = drop (Suc (length es - nat C)) es @ [e]" by (simp add: drop_Suc tl_drop)
    also have "\<dots> = drop (length (es @ [e]) - nat C) (es @ [e])"
      using True assms by (simp add: Suc_diff_le)
    finally show ?thesis by (simp add: appendAll_snoc snoc)
  next
    case False
    then have "\<not> int (length (es @ [e])) > C" by simp
    with False show ?thesis
      by (simp add: appendAll_snoc snoc logAppend_def Let_def)
  qed
qed

text \<open>
  C4.  From the empty log and with a buffer size \<open>C \<ge> 1\<close> that stays the same, after the
  appends of \<open>es\<close> the log has \<open>min (length es) C\<close> entries, and they are the last that many
  of \<open>es\<close> in the order of the appends.
\<close>

theorem C4_log_fifo:
  assumes "1 \<le> C"
  shows "length (appendAll C es) = min (length es) (nat C)
       \<and> appendAll C es = drop (length es - min (length es) (nat C)) es"
proof -
  have "length es - min (length es) (nat C) = length es - nat C" by simp
  then show ?thesis by (simp add: appendAll_eq [OF assms] min_def)
qed

theorem C4_log_fifo_witness:
  "(1::int) \<le> 2 \<and> appendAll 2 [10, 20, 30 :: nat] = [20, 30] \<and> length (appendAll 2 [10, 20, 30 :: nat]) = 2"
proof -
  have 1: "(1::int) \<le> 2" by simp
  from C4_log_fifo [OF 1, of "[10, 20, 30 :: nat]"] show ?thesis by simp
qed

lemma logAppend_invariant:
  "int (length log') \<le> C \<Longrightarrow> int (length (logAppend r C e log')) \<le> C"
  by (simp add: logAppend_def Let_def)

text \<open>
  An append to a log that is as long as the buffer size or longer removes one entry for
  the one it adds: the log keeps its length, and a log that is longer than the buffer
  size stays so at every later change of the channels.
\<close>

lemma logAppend_keeps_length:
  "C \<le> int (length log') \<Longrightarrow> length (logAppend True C e log') = length log'"
  by (simp add: logAppend_def Let_def)

lemma lowered_capacity_stays:
  assumes "logBufferSize st < int (length (entries st))" and "isReadingData st"
  shows "length (entries (onLogEvent st (ScalesUpdate e))) = length (entries st)
       \<and> logBufferSize (onLogEvent st (ScalesUpdate e)) = logBufferSize st
       \<and> isReadingData (onLogEvent st (ScalesUpdate e))"
  using assms by (simp add: runEffect_def logAppend_keeps_length)

text \<open>
  C5.  The code at the failing input: data is read and the channels change three times,
  which leaves 4 entries at the initial buffer size 100; then the buffer size is set to 2.
  That runs the effect once, which appends the entry on display and removes one entry:
  there are 4 entries in a log of buffer size 2, and there are 4 after the next change
  of the channels.  Nothing trims the log to the new buffer size.
\<close>

theorem C5_lowered_buffer_size:
  "logRun (0::nat) [ReadingData True, ScalesUpdate 1, ScalesUpdate 2, ScalesUpdate 3]
     = \<lparr>entries = [0, 1, 2, 3], logBufferSize = 100, isReadingData = True, current = 3\<rparr>
   \<and> logRun (0::nat) [ReadingData True, ScalesUpdate 1, ScalesUpdate 2, ScalesUpdate 3,
                       BufferSizeInput (Some 2)]
     = \<lparr>entries = [1, 2, 3, 3], logBufferSize = 2, isReadingData = True, current = 3\<rparr>
   \<and> logRun (0::nat) [ReadingData True, ScalesUpdate 1, ScalesUpdate 2, ScalesUpdate 3,
                       BufferSizeInput (Some 2), ScalesUpdate 4]
     = \<lparr>entries = [2, 3, 3, 4], logBufferSize = 2, isReadingData = True, current = 4\<rparr>
   \<and> \<not> logInvariant (logRun (0::nat) [ReadingData True, ScalesUpdate 1, ScalesUpdate 2,
                       ScalesUpdate 3, BufferSizeInput (Some 2)])"
  by (simp add: logRun_def initialLog_def runEffect_def logAppend_def setLogBufferSize_def
      logInvariant_def Let_def)

section \<open>Properties of the Stability Estimator\<close>

lemma recentLog_length: "length (recentLog log') = min (length log') 20"
  by (simp add: recentLog_def min_def)

lemma recentLog_idem: "recentLog (recentLog log') = recentLog log'"
  by (simp add: recentLog_def)

lemma trendline_eq:
  "2 \<le> length data \<Longrightarrow>
     calculateTrendlineSlope M data = nanToZero M (slope (calculateLinearRegression M (indexed M data)))"
  by (simp add: calculateTrendlineSlope_def indexed_def nanToZero_def Let_def)

lemma stabilitySlopes_window: "stabilitySlopes M log' = stabilitySlopes M (recentLog log')"
  by (simp add: stabilitySlopes_def recentLog_def Let_def)

lemma stabilitySlopes_short:
  "length (recentLog log') < 2 \<Longrightarrow> stabilitySlopes M log' = (replicate 8 0, 0, 0)"
  by (simp add: stabilitySlopes_def recentLog_def Let_def)

lemma stabilitySlopes_long:
  assumes "2 \<le> length (recentLog log')"
  shows "stabilitySlopes M log' =
     (map (\<lambda>i. trend M (channelData i (recentLog log'))) [0..<8],
      trend M (map totalX (recentLog log')), trend M (map totalY (recentLog log')))"
proof -
  have "\<not> length (recentLog log') < 2" using assms by simp
  moreover have "2 \<le> length (channelData i (recentLog log'))" for i
    using assms by (simp add: channelData_def)
  ultimately show ?thesis
    using assms
    by (simp add: stabilitySlopes_def Let_def trend_def trendline_eq
        recentLog_def [symmetric] channelData_def [symmetric])
qed

text \<open>The regression over exact points on a line \<open>y = a + d\<cdot>x\<close>.\<close>

lemma sums_on_line:
  fixes xs :: "real list"
  shows "(\<Sum>x\<leftarrow>xs. a + x * d) = real (length xs) * a + d * sum_list xs"
    and "(\<Sum>x\<leftarrow>xs. x * (a + x * d)) = a * sum_list xs + d * (\<Sum>x\<leftarrow>xs. x * x)"
  by (induction xs) (simp_all add: algebra_simps)

lemma olsSlopeReal_line:
  fixes xs :: "real list"
  assumes "p \<in> set xs" and "q \<in> set xs" and "p \<noteq> q"
  shows "olsSlopeReal (map (\<lambda>x. (x, a + x * d)) xs) = d"
proof -
  let ?n = "real (length xs)"
  let ?D = "?n * (\<Sum>x\<leftarrow>xs. x * x) - sum_list xs * sum_list xs"
  have D: "?D \<noteq> 0" using variance_zero_imp_equal [of xs p q] assms by blast
  have "olsSlopeReal (map (\<lambda>x. (x, a + x * d)) xs)
          = (?n * (a * sum_list xs + d * (\<Sum>x\<leftarrow>xs. x * x))
               - sum_list xs * (?n * a + d * sum_list xs)) / ?D"
    by (simp add: olsSlopeReal_def comp_def sums_on_line power2_eq_square Let_def)
  also have "\<dots> = (d * ?D) / ?D" by (simp add: algebra_simps)
  also have "\<dots> = d" using D by simp
  finally show ?thesis .
qed

lemma indexed_arithmeticSequence:
  "indexed exact (arithmeticSequence a d k) = map numPair (map (\<lambda>x. (x, a + x * d)) (map real [0..<k]))"
  by (simp add: indexed_def arithmeticSequence_def enumerate_eq_zip zip_map2 numPair_def comp_def
      zip_same_conv_map)

lemma regression_arithmeticSequence:
  assumes "2 \<le> k"
  shows "slope (calculateLinearRegression exact (indexed exact (arithmeticSequence a d k))) = Num d"
proof -
  let ?xs = "map real [0..<k]"
  let ?rs = "map (\<lambda>x. (x, a + x * d)) ?xs"
  have 0: "0 \<in> set ?xs" and 1: "1 \<in> set ?xs"
    using assms by (auto simp: image_iff intro: bexI [of _ 0] bexI [of _ 1])
  have fst: "map fst ?rs = ?xs" by (simp add: comp_def)
  have "slope (calculateLinearRegression exact (map numPair ?rs)) = Num (olsSlopeReal ?rs)"
  proof (rule regression_slope_real [of _ 0 1])
    show "2 \<le> length ?rs" using assms by simp
    show "0 \<in> set (map fst ?rs)" unfolding fst by (rule 0)
    show "1 \<in> set (map fst ?rs)" unfolding fst by (rule 1)
    show "(0::real) \<noteq> 1" by simp
  qed
  also have "olsSlopeReal ?rs = d"
    using olsSlopeReal_line [OF 0 1] by simp
  finally show ?thesis by (simp add: indexed_arithmeticSequence)
qed

lemma trend_arithmeticSequence:
  assumes "2 \<le> k"
  shows "trend exact (arithmeticSequence a d k) = Num (100 * d)"
  by (simp add: trend_def regression_arithmeticSequence [OF assms] nanToZero_def mult.commute)


lemma stabilitySlopes_totalX_arithmetic:
  assumes "2 \<le> length (recentLog nlog)"
    and "map totalX (recentLog nlog) = arithmeticSequence a d (length (recentLog nlog))"
  shows "fst (snd (stabilitySlopes exact nlog)) = Num (100 * d)"
  using assms by (simp add: stabilitySlopes_long trend_arithmeticSequence)

lemma stabilitySlopes_totalY_arithmetic:
  assumes "2 \<le> length (recentLog nlog)"
    and "map totalY (recentLog nlog) = arithmeticSequence a d (length (recentLog nlog))"
  shows "snd (snd (stabilitySlopes exact nlog)) = Num (100 * d)"
  using assms by (simp add: stabilitySlopes_long trend_arithmeticSequence)

lemma stabilitySlopes_channel_arithmetic:
  assumes "2 \<le> length (recentLog nlog)" and "i < 8"
    and "channelData i (recentLog nlog) = arithmeticSequence a d (length (recentLog nlog))"
  shows "fst (stabilitySlopes exact nlog) ! i = Num (100 * d)"
proof -
  have "fst (stabilitySlopes exact nlog) ! i = trend exact (channelData i (recentLog nlog))"
    using assms(1,2) by (simp add: stabilitySlopes_long del: upt_Suc)
  then show ?thesis using assms(1,3) by (simp add: trend_arithmeticSequence)
qed

text \<open>
  C6 as stated: for a window whose \<open>totalX\<close> are NaN and 1 the slope of the regression is
  NaN, and so is its product with 100, but the estimator gives 0.
\<close>

theorem C6_nan_counterexample:
  "fst (snd (stabilitySlopes exact
       [\<lparr>totalX = NaN, totalY = Num 0, processedValues = []\<rparr>,
        \<lparr>totalX = Num 1, totalY = Num 0, processedValues = []\<rparr>])) = Num 0
   \<and> slope (calculateLinearRegression exact [(Num 0, NaN), (Num 1, Num 1)]) * Num 100 = NaN"
  by (simp add: stabilitySlopes_def calculateTrendlineSlope_def calculateLinearRegression_def
      sumStep_def Let_def enumerate_eq_zip plus_number_def times_number_def minus_number_def
      divide_number_def)

text \<open>
  C6, amended.  The estimator reads the window of the last 20 entries of the log, or all
  of them when there are fewer.  With fewer than 2 entries in the window all slopes are 0.
  Otherwise each slope is 100 times the slope of the regression over the pairs
  \<open>(tickIndex, value)\<close> of the window, with 0 in the place of a slope that is NaN, where a
  channel that an entry has no value for counts as 0 (in any arithmetic).  So for values
  in arithmetic sequence with difference \<open>d\<close> over a window of at least 2 entries the slope
  is \<open>100\<cdot>d\<close> (in exact arithmetic).
\<close>

theorem C6_stability:
  "stabilitySlopes M log' = stabilitySlopes M (recentLog log')
   \<and> length (recentLog log') = min (length log') 20
   \<and> (length (recentLog short) < 2 \<longrightarrow> stabilitySlopes M short = (replicate 8 0, 0, 0))
   \<and> (2 \<le> length (recentLog log') \<longrightarrow>
        stabilitySlopes M log' =
          (map (\<lambda>i. trend M (channelData i (recentLog log'))) [0..<8],
           trend M (map totalX (recentLog log')), trend M (map totalY (recentLog log'))))
   \<and> (2 \<le> length (recentLog nlog) \<longrightarrow>
        (map totalX (recentLog nlog) = arithmeticSequence ax dx (length (recentLog nlog)) \<longrightarrow>
           fst (snd (stabilitySlopes exact nlog)) = Num (100 * dx))
      \<and> (map totalY (recentLog nlog) = arithmeticSequence ay dy (length (recentLog nlog)) \<longrightarrow>
           snd (snd (stabilitySlopes exact nlog)) = Num (100 * dy))
      \<and> (i < 8 \<and> channelData i (recentLog nlog) = arithmeticSequence ac dc (length (recentLog nlog)) \<longrightarrow>
           fst (stabilitySlopes exact nlog) ! i = Num (100 * dc)))"
  using stabilitySlopes_window [of M log'] recentLog_length [of log']
    stabilitySlopes_short [of short M] stabilitySlopes_long [of log' M]
    stabilitySlopes_totalX_arithmetic [of nlog ax dx] stabilitySlopes_totalY_arithmetic [of nlog ay dy]
    stabilitySlopes_channel_arithmetic [of nlog i ac dc]
  by blast

theorem C6_stability_witness:
  "length (recentLog [\<lparr>totalX = Num 1, totalY = Num 0, processedValues = []\<rparr>]) < 2
   \<and> stabilitySlopes exact [\<lparr>totalX = Num 1, totalY = Num 0, processedValues = []\<rparr>]
       = (replicate 8 0, 0, 0)
   \<and> 2 \<le> length (recentLog
       [\<lparr>totalX = Num 1, totalY = Num 4, processedValues = [Num 7]\<rparr>,
        \<lparr>totalX = Num 3, totalY = Num 4, processedValues = [Num 6]\<rparr>,
        \<lparr>totalX = Num 5, totalY = Num 4, processedValues = [Num 5]\<rparr>])
   \<and> fst (snd (stabilitySlopes exact
       [\<lparr>totalX = Num 1, totalY = Num 4, processedValues = [Num 7]\<rparr>,
        \<lparr>totalX = Num 3, totalY = Num 4, processedValues = [Num 6]\<rparr>,
        \<lparr>totalX = Num 5, totalY = Num 4, processedValues = [Num 5]\<rparr>])) = Num 200
   \<and> snd (snd (stabilitySlopes exact
       [\<lparr>totalX = Num 1, totalY = Num 4, processedValues = [Num 7]\<rparr>,
        \<lparr>totalX = Num 3, totalY = Num 4, processedValues = [Num 6]\<rparr>,
        \<lparr>totalX = Num 5, totalY = Num 4, processedValues = [Num 5]\<rparr>])) = Num 0
   \<and> fst (stabilitySlopes exact
       [\<lparr>totalX = Num 1, totalY = Num 4, processedValues = [Num 7]\<rparr>,
        \<lparr>totalX = Num 3, totalY = Num 4, processedValues = [Num 6]\<rparr>,
        \<lparr>totalX = Num 5, totalY = Num 4, processedValues = [Num 5]\<rparr>]) ! 0 = Num (- 100)"
proof -
  let ?short = "[\<lparr>totalX = Num 1, totalY = Num 0, processedValues = []\<rparr>]"
  let ?log = "[\<lparr>totalX = Num 1, totalY = Num 4, processedValues = [Num 7]\<rparr>,
        \<lparr>totalX = Num 3, totalY = Num 4, processedValues = [Num 6]\<rparr>,
        \<lparr>totalX = Num 5, totalY = Num 4, processedValues = [Num 5]\<rparr>]"
  have s: "length (recentLog ?short) < 2" by (simp add: recentLog_def)
  have l: "2 \<le> length (recentLog ?log)" by (simp add: recentLog_def)
  have r: "recentLog ?log = ?log" by (simp add: recentLog_def)
  have x: "map totalX (recentLog ?log) = arithmeticSequence 1 2 (length (recentLog ?log))"
    unfolding r by (simp add: arithmeticSequence_def upt_conv_Cons)
  have y: "map totalY (recentLog ?log) = arithmeticSequence 4 0 (length (recentLog ?log))"
    unfolding r by (simp add: arithmeticSequence_def upt_conv_Cons)
  have c: "(0::nat) < 8 \<and>
      channelData 0 (recentLog ?log) = arithmeticSequence 7 (- 1) (length (recentLog ?log))"
    unfolding r by (simp add: arithmeticSequence_def channelData_def upt_conv_Cons)
  from C6_stability [where M = exact and log' = ?log and short = ?short and nlog = ?log
      and ax = 1 and dx = 2 and ay = 4 and dy = 0 and i = 0 and ac = 7 and dc = "- 1"] s l x y c
  have "stabilitySlopes exact ?short = (replicate 8 0, 0, 0)"
    and "fst (snd (stabilitySlopes exact ?log)) = Num (100 * 2)"
    and "snd (snd (stabilitySlopes exact ?log)) = Num (100 * 0)"
    and "fst (stabilitySlopes exact ?log) ! 0 = Num (100 * - 1)"
    by blast+
  with s l show ?thesis by simp
qed

section \<open>Properties of the Calibrator\<close>

lemma sqrt_1e8: "sqrt 100000000 = 10000"
  using real_sqrt_abs2 [of 10000] by simp

lemma regression_identity_points:
  "calculateLinearRegression exact [(Num 100, Num 100), (Num 200, Num 200)]
     = \<lparr>slope = Num 1, rSquared = Num 1\<rparr>"
  by (simp add: calculateLinearRegression_def sumStep_def Let_def sqrt_1e8)

lemma regressionResult_identity_points:
  assumes "tareValue nscale = Num 0"
  shows "regressionResult exact nscale
           [\<lparr>knownWeight = Num 100, rawValue = Num 100\<rparr>, \<lparr>knownWeight = Num 200, rawValue = Num 200\<rparr>]
         = \<lparr>slope = Num 1, rSquared = Num 1\<rparr>"
  using assms by (simp add: regressionResult_def regression_identity_points)


text \<open>
  C7.  The regression of the dialogue is the one over the pairs of known weight and raw
  value minus tare value.  The button that commits can be clicked exactly when there are
  at least 2 points.  The click writes the slope of the regression into the calibration
  slope of the channel of the dialogue when this slope is not 1 and changes no channel
  when it is 1 (in any arithmetic).  With tare value 0 and the points (100, 100) and
  (200, 200) the regression gives slope 1 and rSquared 1 and the click changes nothing.
\<close>

theorem C7_calibration_commit:
  "regressionResult M scale points
     = calculateLinearRegression M
         (map (\<lambda>p. (knownWeight p, CalibrationPoint.rawValue p - tareValue scale)) points)
   \<and> (clickApply M scale points prevScales \<noteq> None \<longleftrightarrow> 2 \<le> length points)
   \<and> (2 \<le> length points \<and> slope (regressionResult M scale points) \<noteq> 1 \<longrightarrow>
        clickApply M scale points prevScales
          = Some (map (\<lambda>s. if id' s = id' scale
                           then s\<lparr>calibrationSlope := slope (regressionResult M scale points)\<rparr> else s)
                    prevScales))
   \<and> (2 \<le> length points \<and> slope (regressionResult M scale points) = 1 \<longrightarrow>
        clickApply M scale points prevScales = Some prevScales)
   \<and> (tareValue nscale = Num 0 \<longrightarrow>
        regressionResult exact nscale
           [\<lparr>knownWeight = Num 100, rawValue = Num 100\<rparr>, \<lparr>knownWeight = Num 200, rawValue = Num 200\<rparr>]
          = \<lparr>slope = Num 1, rSquared = Num 1\<rparr>
        \<and> clickApply exact nscale
           [\<lparr>knownWeight = Num 100, rawValue = Num 100\<rparr>, \<lparr>knownWeight = Num 200, rawValue = Num 200\<rparr>]
           nscales = Some nscales)"
proof (intro conjI impI)
  assume "tareValue nscale = Num 0"
  then show "clickApply exact nscale
           [\<lparr>knownWeight = Num 100, rawValue = Num 100\<rparr>, \<lparr>knownWeight = Num 200, rawValue = Num 200\<rparr>]
           nscales = Some nscales"
    by (simp add: clickApply_def handleApply_def regressionResult_identity_points)
qed (auto simp: clickApply_def handleApply_def handleApplyCalibration_def regressionResult_def
      regression_identity_points)

theorem C7_calibration_commit_witness:
  "2 \<le> length [\<lparr>knownWeight = Num 100, rawValue = Num 210\<rparr>, \<lparr>knownWeight = Num 200, rawValue = Num 410\<rparr>]
   \<and> slope (regressionResult exact (hd defaultScales\<lparr>tareValue := Num 10\<rparr>)
        [\<lparr>knownWeight = Num 100, rawValue = Num 210\<rparr>, \<lparr>knownWeight = Num 200, rawValue = Num 410\<rparr>]) = Num 2
   \<and> map calibrationSlope (the (clickApply exact (hd defaultScales\<lparr>tareValue := Num 10\<rparr>)
        [\<lparr>knownWeight = Num 100, rawValue = Num 210\<rparr>, \<lparr>knownWeight = Num 200, rawValue = Num 410\<rparr>]
        defaultScales))
       = [Num 2, Num 1, Num 1, Num 1, Num 1, Num 1, Num 1, Num 1]
   \<and> tareValue (hd (defaultScales :: number Scale list)) = Num 0
   \<and> clickApply exact (hd defaultScales)
        [\<lparr>knownWeight = Num 100, rawValue = Num 100\<rparr>, \<lparr>knownWeight = Num 200, rawValue = Num 200\<rparr>]
        defaultScales = Some defaultScales"
proof -
  let ?sc = "hd defaultScales\<lparr>tareValue := Num 10\<rparr> :: number Scale"
  let ?pts = "[\<lparr>knownWeight = Num 100, rawValue = Num 210\<rparr>, \<lparr>knownWeight = Num 200, rawValue = Num 410\<rparr>]"
  have ds: "(defaultScales :: number Scale list) = map (\<lambda>i. \<lparr>id' = int i + 1, name = ''Scale '' @ [char_of (48 + i + 1)],
      rawValue = Num 0, tareValue = Num 0, calibrationSlope = Num 1, category = Cat_none\<rparr>) [0, 1, 2, 3, 4, 5, 6, 7]"
    by (simp add: defaultScales_def upt_conv_Cons)
  have 1: "2 \<le> length ?pts" by simp
  have 2: "regressionResult exact ?sc ?pts = \<lparr>slope = Num 2, rSquared = Num 1\<rparr>"
    by (simp add: regressionResult_def calculateLinearRegression_def sumStep_def Let_def sqrt_1e8)
  then have 3: "slope (regressionResult exact ?sc ?pts) \<noteq> 1" by simp
  have 4: "tareValue (hd (defaultScales :: number Scale list)) = Num 0"
    by (simp add: ds)
  note T = C7_calibration_commit [where M = exact and scale = ?sc and points = ?pts
      and prevScales = defaultScales and nscale = "hd defaultScales" and nscales = defaultScales]
  from T 1 3 have a: "clickApply exact ?sc ?pts defaultScales
      = Some (map (\<lambda>s. if id' s = id' ?sc
                       then s\<lparr>calibrationSlope := slope (regressionResult exact ?sc ?pts)\<rparr> else s)
                defaultScales)"
    by blast
  from T 4 have b: "clickApply exact (hd defaultScales)
        [\<lparr>knownWeight = Num 100, rawValue = Num 100\<rparr>, \<lparr>knownWeight = Num 200, rawValue = Num 200\<rparr>]
        defaultScales = Some defaultScales"
    by blast
  have c: "map calibrationSlope (map (\<lambda>s. if id' s = id' ?sc
                       then s\<lparr>calibrationSlope := Num 2\<rparr> else s) defaultScales)
       = [Num 2, Num 1, Num 1, Num 1, Num 1, Num 1, Num 1, Num 1]"
    by (simp add: ds)
  show ?thesis
    unfolding a b option.sel 2 CalibrationResult.simps c using 1 4 by simp
qed

section \<open>Properties of the streamed Data Source and of the raw updates\<close>

declare processLines.simps [simp del]

lemma indexOf_None: "indexOf c s = None \<longleftrightarrow> c \<notin> set s"
  by (induction s) auto

lemma indexOf_Some:
  "indexOf c s = Some i \<longleftrightarrow> i < length s \<and> s ! i = c \<and> c \<notin> set (take i s)"
proof (induction s arbitrary: i)
  case Nil
  show ?case by simp
next
  case (Cons d ds)
  show ?case
  proof (cases "d = c")
    case True
    then show ?thesis by (cases i) auto
  next
    case False
    then show ?thesis by (cases i) (auto simp: Cons)
  qed
qed

lemma indexOf_line: "c \<notin> set line \<Longrightarrow> indexOf c (line @ c # rest) = Some (length line)"
  by (induction line) auto

lemma indexOf_append:
  "indexOf c s = Some i \<Longrightarrow> indexOf c (s @ t) = Some i"
  by (induction s arbitrary: i) (auto split: if_splits)

lemma processLines_residual:
  "newline \<notin> set lineBuffer \<Longrightarrow> processLines M pf lineBuffer scales = (lineBuffer, scales)"
  by (subst processLines.simps) (simp add: indexOf_None [THEN iffD2])

lemma processLines_line:
  assumes "newline \<notin> set rawLine"
  shows "processLines M pf (rawLine @ newline # rest) scales
           = processLines M pf rest (onLine M pf scales rawLine)"
proof -
  have "onLine M pf scales rawLine =
      (if trim rawLine \<noteq> [] then
         let values = map pf (split tab (trim rawLine))
         in if length values = 8 \<and> list_all (\<lambda>v. \<not> isNaN M v) values
            then updateRaw M values scales else scales
       else scales)"
    by (simp add: onLine_def decodeLine_def Let_def)
  then show ?thesis
    by (subst processLines.simps) (simp add: indexOf_line [OF assms] Let_def)
qed

lemma processLines_append:
  "processLines M pf (lineBuffer @ chunk) scales
     = (case processLines M pf lineBuffer scales of (residual, scales') \<Rightarrow>
          processLines M pf (residual @ chunk) scales')"
proof (induction M pf lineBuffer scales rule: processLines.induct)
  case (1 M pf lineBuffer scales)
  show ?case
  proof (cases "indexOf newline lineBuffer")
    case None
    then have "processLines M pf lineBuffer scales = (lineBuffer, scales)"
      by (subst processLines.simps) simp
    then show ?thesis by simp
  next
    case (Some i)
    then have i: "i < length lineBuffer" by (simp add: indexOf_Some)
    have app: "indexOf newline (lineBuffer @ chunk) = Some i"
      using Some by (rule indexOf_append)
    let ?s = "onLine M pf scales (take i lineBuffer)"
    have s: "?s =
      (if trim (take i lineBuffer) \<noteq> [] then
         let values = map pf (split tab (trim (take i lineBuffer)))
         in if length values = 8 \<and> list_all (\<lambda>v. \<not> isNaN M v) values
            then updateRaw M values scales else scales
       else scales)"
      by (simp add: onLine_def decodeLine_def Let_def)
    have l: "processLines M pf lineBuffer scales = processLines M pf (drop (i + 1) lineBuffer) ?s"
      by (subst processLines.simps) (simp add: Some Let_def s)
    have r: "processLines M pf (lineBuffer @ chunk) scales
               = processLines M pf (drop (i + 1) lineBuffer @ chunk) ?s"
      using i by (subst processLines.simps) (simp add: app Let_def s)
    from "1.IH" [OF Some refl refl] show ?thesis
      unfolding l r s by simp
  qed
qed


lemma split_no_sep: "c \<notin> set s \<Longrightarrow> split c s = [s]"
  by (induction s) auto

lemma split_not_Nil [simp]: "split c s \<noteq> []"
  by (induction s) (auto split: list.splits)

lemma split_line: "c \<notin> set line \<Longrightarrow> split c (line @ c # rest) = line # split c rest"
  by (induction line) (auto split: list.splits)

lemma processLines_lines:
  "processLines M pf input scales
     = (last (split newline input), foldl (onLine M pf) scales (butlast (split newline input)))"
proof (induction input arbitrary: scales rule: length_induct)
  case (1 input)
  show ?case
  proof (cases "indexOf newline input")
    case None
    then have "newline \<notin> set input" by (simp add: indexOf_None)
    then show ?thesis by (simp add: processLines_residual split_no_sep)
  next
    case (Some i)
    then have i: "i < length input" "input ! i = newline" "newline \<notin> set (take i input)"
      by (simp_all add: indexOf_Some)
    have decomp: "input = take i input @ newline # drop (Suc i) input"
      using id_take_nth_drop [OF i(1)] i(2) by simp
    have "length (drop (Suc i) input) < length input" using i(1) by simp
    with 1 have IH: "processLines M pf (drop (Suc i) input) s
        = (last (split newline (drop (Suc i) input)),
           foldl (onLine M pf) s (butlast (split newline (drop (Suc i) input))))" for s
      by blast
    have "processLines M pf input scales
        = processLines M pf (drop (Suc i) input) (onLine M pf scales (take i input))"
      by (subst decomp) (rule processLines_line [OF i(3)])
    moreover have "split newline input = take i input # split newline (drop (Suc i) input)"
      by (subst decomp) (rule split_line [OF i(3)])
    ultimately show ?thesis by (simp add: IH)
  qed
qed

lemma foldl_readChunk:
  "foldl (readChunk M pf) (processLines M pf b s) chunks = processLines M pf (b @ concat chunks) s"
proof (induction chunks arbitrary: b)
  case Nil
  show ?case by simp
next
  case (Cons c chunks)
  have "readChunk M pf (processLines M pf b s) c = processLines M pf (b @ c) s"
    by (simp add: readChunk_def processLines_append [of M pf b c s] split: prod.splits)
  then show ?case by (simp add: Cons)
qed

lemma readFromPort_lines:
  "readFromPort M pf chunks scales
     = (last (split newline (concat chunks)),
        foldl (onLine M pf) scales (butlast (split newline (concat chunks))))"
proof -
  have "([], scales) = processLines M pf [] scales"
    by (simp add: processLines_residual)
  then have "readFromPort M pf chunks scales = processLines M pf ([] @ concat chunks) scales"
    unfolding readFromPort_def by (simp only: foldl_readChunk)
  then show ?thesis by (simp add: processLines_lines)
qed

lemma onLine_eq:
  "onLine M pf scales rawLine =
     (if trim rawLine \<noteq> [] \<and> length (split tab (trim rawLine)) = 8
         \<and> list_all (\<lambda>f. \<not> isNaN M (pf f)) (split tab (trim rawLine))
      then updateRaw M (map pf (split tab (trim rawLine))) scales else scales)"
  by (simp add: onLine_def decodeLine_def Let_def list_all_iff)

lemma parseFloat_samples:
  "parseFloat ''0.5'' = Num (1 / 2)" "parseFloat ''1'' = Num 1" "parseFloat ''1.5'' = Num (3 / 2)"
  "parseFloat ''2'' = Num 2" "parseFloat ''2.5'' = Num (5 / 2)" "parseFloat ''3'' = Num 3"
  "parseFloat ''3.5'' = Num (7 / 2)" "parseFloat ''4'' = Num 4"
  "parseFloat ''10'' = Num 10" "parseFloat ''15'' = Num 15" "parseFloat [] = NaN"
  by (simp_all add: parseFloat_def isWhiteSpace_def isDigit_def digitsValue_def exponentPart_def
      power10_def Let_def)

lemma map_enumerate_config:
  "scalesConfig (map (\<lambda>(i, s). s\<lparr>rawValue := g i s\<rparr>) (enumerate n scales)) = scalesConfig scales"
  by (induction scales arbitrary: n) (simp_all add: scalesConfig_def)

lemma updateRaw_config: "scalesConfig (updateRaw M vs scales) = scalesConfig scales"
  unfolding updateRaw_def by (rule map_enumerate_config)

lemma simulationTick_config: "scalesConfig (simulationTick M random scales) = scalesConfig scales"
  unfolding simulationTick_def by (rule map_enumerate_config)

lemma map_enumerate_nth:
  "map (\<lambda>(i, s). g i s) (enumerate n xs) = map (\<lambda>i. g (n + i) (xs ! i)) [0..<length xs]"
  by (rule nth_equalityI) (simp_all add: nth_enumerate_eq)

lemma updateRaw_rawValue:
  assumes "length scales = length values"
  shows "map rawValue (updateRaw M values scales) = values"
proof -
  have "map rawValue (updateRaw M values scales)
          = map (\<lambda>(i, s). if i < length values then values ! i else nan M) (enumerate 0 scales)"
    unfolding updateRaw_def by (simp add: case_prod_unfold)
  also have "\<dots> = map (\<lambda>i. if i < length values then values ! i else nan M) [0..<length scales]"
    by (simp add: map_enumerate_nth)
  also have "\<dots> = values"
    using assms by (intro nth_equalityI) simp_all
  finally show ?thesis .
qed

lemma simulationTick_rawValue:
  "map rawValue (simulationTick M random scales)
     = map (\<lambda>(i, s). rawValue s + (random i - 1 / ofNat M 2) * (1 / ofNat M 10)) (enumerate 0 scales)"
  unfolding simulationTick_def by (simp add: case_prod_unfold)

lemma onLine_config: "scalesConfig (onLine M pf scales rawLine) = scalesConfig scales"
  by (simp add: onLine_def updateRaw_config split: option.splits)

lemma foldl_onLine_config: "scalesConfig (foldl (onLine M pf) scales ls) = scalesConfig scales"
  by (induction ls arbitrary: scales) (simp_all add: onLine_config)

lemma readFromPort_config: "scalesConfig (snd (readFromPort M pf chunks scales)) = scalesConfig scales"
  by (simp add: readFromPort_lines foldl_onLine_config)


lemma length_defaultScales: "length (defaultScales :: 'a::{zero,one} Scale list) = 8"
  by (simp add: defaultScales_def)

lemma trailing_tab_line:
  "split tab (tabJoin sampleTokens @ [tab]) = sampleTokens @ [[]]"
  "trim (tabJoin sampleTokens @ [tab]) = tabJoin sampleTokens"
  "split tab (tabJoin sampleTokens) = sampleTokens"
  "newline \<notin> set (tabJoin sampleTokens @ [tab])"
  by (simp_all add: sampleTokens_def tab_def newline_def trim_def isWhiteSpace_def)


text \<open>
  C8 as stated: a line of eight numerals with a tab after the last one splits at
  the tabs into 9 fields, the last of them empty, and yet it updates the raw values: the
  loop trims the line before it splits it, and a tab is white space.
\<close>

theorem C8_trailing_tab_counterexample:
  "\<not> splitsToEightNumbers exact parseFloat (tabJoin sampleTokens @ [tab])
   \<and> map rawValue (snd (readFromPort exact parseFloat [tabJoin sampleTokens @ [tab, newline]] defaultScales))
       = [Num (1 / 2), Num 1, Num (3 / 2), Num 2, Num (5 / 2), Num 3, Num (7 / 2), Num 4]"
proof
  show "\<not> splitsToEightNumbers exact parseFloat (tabJoin sampleTokens @ [tab])"
    by (simp add: splitsToEightNumbers_def trailing_tab_line(1)) (simp add: sampleTokens_def)
next
  have vals: "map parseFloat sampleTokens = [Num (1 / 2), Num 1, Num (3 / 2), Num 2, Num (5 / 2), Num 3, Num (7 / 2), Num 4]"
    by (simp add: sampleTokens_def parseFloat_samples)
  have "split newline (tabJoin sampleTokens @ [tab, newline]) = [tabJoin sampleTokens @ [tab], []]"
    using split_line [OF trailing_tab_line(4), of "[]"] by simp
  then have "snd (readFromPort exact parseFloat [tabJoin sampleTokens @ [tab, newline]] defaultScales)
      = onLine exact parseFloat defaultScales (tabJoin sampleTokens @ [tab])"
    by (simp add: readFromPort_lines)
  also have "\<dots> = updateRaw exact [Num (1 / 2), Num 1, Num (3 / 2), Num 2, Num (5 / 2), Num 3, Num (7 / 2), Num 4] defaultScales"
    by (simp add: onLine_eq trailing_tab_line vals) (simp add: sampleTokens_def parseFloat_samples)
  finally show "map rawValue (snd (readFromPort exact parseFloat [tabJoin sampleTokens @ [tab, newline]] defaultScales))
       = [Num (1 / 2), Num 1, Num (3 / 2), Num 2, Num (5 / 2), Num 3, Num (7 / 2), Num 4]"
    by (simp add: updateRaw_rawValue length_defaultScales)
qed

text \<open>
  C8, amended.  The read loop leaves in the buffer what follows the last newline of the
  text received so far, and the channels are what the complete lines made of them in
  their order, whatever the chunks the text arrived in.  A complete line updates the raw
  values exactly when the line with the white space at both ends removed is not empty,
  splits at the tabs into exactly 8 fields, and \<^verbatim>\<open>parseFloat\<close> gives a number other than NaN for
  each of them; any other line leaves the channels as they are.  The functions have no
  error value: nothing is raised.
\<close>

theorem C8_streamed_decoding:
  "readFromPort M pf chunks scales
     = (last (split newline (concat chunks)),
        foldl (onLine M pf) scales (butlast (split newline (concat chunks))))
   \<and> onLine M pf scales rawLine =
       (if trim rawLine \<noteq> [] \<and> length (split tab (trim rawLine)) = 8
           \<and> list_all (\<lambda>f. \<not> isNaN M (pf f)) (split tab (trim rawLine))
        then updateRaw M (map pf (split tab (trim rawLine))) scales else scales)
   \<and> newline \<notin> set (fst (readFromPort M pf chunks scales))
   \<and> readChunk M pf (readFromPort M pf chunks scales) chunk = readFromPort M pf (chunks @ [chunk]) scales"
proof (intro conjI)
  show "readFromPort M pf chunks scales
     = (last (split newline (concat chunks)),
        foldl (onLine M pf) scales (butlast (split newline (concat chunks))))"
    by (rule readFromPort_lines)
  show "onLine M pf scales rawLine =
       (if trim rawLine \<noteq> [] \<and> length (split tab (trim rawLine)) = 8
           \<and> list_all (\<lambda>f. \<not> isNaN M (pf f)) (split tab (trim rawLine))
        then updateRaw M (map pf (split tab (trim rawLine))) scales else scales)"
    by (rule onLine_eq)
  have "c \<notin> set (last (split c s))" for c s
    by (induction s) (auto split: list.splits)
  then show "newline \<notin> set (fst (readFromPort M pf chunks scales))"
    by (simp add: readFromPort_lines)
  show "readChunk M pf (readFromPort M pf chunks scales) chunk = readFromPort M pf (chunks @ [chunk]) scales"
    by (simp add: readFromPort_def)
qed

text \<open>
  C10.  A simulated tick and an accepted line are each one function from the channels to
  the channels that changes the field \<^verbatim>\<open>rawValue\<close> only: the identifiers, names, tare
  values, calibration slopes and categories of all channels, and their number, stay the
  same.  An accepted line with its 8 values replaces the raw values of the 8 channels by
  these values, a tick replaces each raw value by itself plus \<open>(random - 0.5) \<times> 0.1\<close>; whatever
  text the read loop receives, it changes raw values only.
\<close>

theorem C10_raw_update_frame:
  "scalesConfig (simulationTick M random scales) = scalesConfig scales
   \<and> map rawValue (simulationTick M random scales)
       = map (\<lambda>(i, s). rawValue s + (random i - 1 / ofNat M 2) * (1 / ofNat M 10)) (enumerate 0 scales)
   \<and> onLine M pf scales rawLine =
       (case decodeLine M pf rawLine of Some vs \<Rightarrow> updateRaw M vs scales | None \<Rightarrow> scales)
   \<and> scalesConfig (updateRaw M vs scales) = scalesConfig scales
   \<and> (length scales = 8 \<and> length vs = 8 \<longrightarrow> map rawValue (updateRaw M vs scales) = vs)
   \<and> scalesConfig (snd (readFromPort M pf chunks scales)) = scalesConfig scales"
  using simulationTick_config [of M random scales] simulationTick_rawValue [of M random scales]
    updateRaw_config [of M vs scales] updateRaw_rawValue [of scales vs M]
    readFromPort_config [of M pf chunks scales]
  by (simp add: onLine_def)

theorem C10_raw_update_frame_witness:
  "length (defaultScales :: number Scale list) = 8
   \<and> length [Num (1 / 2), Num 1, Num (3 / 2), Num 2, Num (5 / 2), Num 3, Num (7 / 2), Num 4] = 8
   \<and> map rawValue (updateRaw exact [Num (1 / 2), Num 1, Num (3 / 2), Num 2, Num (5 / 2), Num 3, Num (7 / 2), Num 4] defaultScales)
       = [Num (1 / 2), Num 1, Num (3 / 2), Num 2, Num (5 / 2), Num 3, Num (7 / 2), Num 4]
   \<and> scalesConfig (updateRaw exact [Num (1 / 2), Num 1, Num (3 / 2), Num 2, Num (5 / 2), Num 3, Num (7 / 2), Num 4] defaultScales)
       = scalesConfig (defaultScales :: number Scale list)"
proof -
  have 1: "length (defaultScales :: number Scale list) = 8"
    by (simp add: defaultScales_def)
  have 2: "length [Num (1 / 2), Num 1, Num (3 / 2), Num 2, Num (5 / 2), Num 3, Num (7 / 2), Num 4] = 8"
    by simp
  from C10_raw_update_frame [where M = exact and scales = defaultScales
      and vs = "[Num (1 / 2), Num 1, Num (3 / 2), Num 2, Num (5 / 2), Num 3, Num (7 / 2), Num 4]"] 1 2
  show ?thesis by blast
qed

lemma defaultScales_list:
  "(defaultScales :: number Scale list) =
     map (\<lambda>i. \<lparr>id' = int i + 1, name = ''Scale '' @ [char_of (48 + i + 1)], rawValue = Num 0,
                tareValue = Num 0, calibrationSlope = Num 1, category = Cat_none\<rparr>)
       [0, 1, 2, 3, 4, 5, 6, 7]"
  by (simp add: defaultScales_def upt_conv_Cons)

lemma readChunk_frame:
  assumes "newline \<notin> set (tabJoin tokens)"
  shows "readChunk M pf ([], scales) (frame tokens) = ([], onLine M pf scales (tabJoin tokens))"
  using processLines_line [OF assms, of M pf "[]" scales]
  by (simp add: readChunk_def frame_def processLines_residual)

lemma frame_tens:
  "newline \<notin> set (tabJoin [''10'', ''10'', ''10'', ''10'', ''10'', ''10'', ''10'', ''10''])"
  "trim (tabJoin [''10'', ''10'', ''10'', ''10'', ''10'', ''10'', ''10'', ''10''])
     = tabJoin [''10'', ''10'', ''10'', ''10'', ''10'', ''10'', ''10'', ''10'']"
  "split tab (tabJoin [''10'', ''10'', ''10'', ''10'', ''10'', ''10'', ''10'', ''10''])
     = [''10'', ''10'', ''10'', ''10'', ''10'', ''10'', ''10'', ''10'']"
  by (simp_all add: tab_def newline_def trim_def isWhiteSpace_def)

lemma frame_fifteen:
  "newline \<notin> set (tabJoin [''15'', ''10'', ''10'', ''10'', ''10'', ''10'', ''10'', ''10''])"
  "trim (tabJoin [''15'', ''10'', ''10'', ''10'', ''10'', ''10'', ''10'', ''10''])
     = tabJoin [''15'', ''10'', ''10'', ''10'', ''10'', ''10'', ''10'', ''10'']"
  "split tab (tabJoin [''15'', ''10'', ''10'', ''10'', ''10'', ''10'', ''10'', ''10''])
     = [''15'', ''10'', ''10'', ''10'', ''10'', ''10'', ''10'', ''10'']"
  by (simp_all add: tab_def newline_def trim_def isWhiteSpace_def)

lemma onLine_tens:
  "onLine exact parseFloat scales (tabJoin [''10'', ''10'', ''10'', ''10'', ''10'', ''10'', ''10'', ''10''])
     = updateRaw exact [Num 10, Num 10, Num 10, Num 10, Num 10, Num 10, Num 10, Num 10] scales"
  by (simp add: onLine_eq frame_tens parseFloat_samples del: tabJoin.simps) simp

lemma onLine_fifteen:
  "onLine exact parseFloat scales (tabJoin [''15'', ''10'', ''10'', ''10'', ''10'', ''10'', ''10'', ''10''])
     = updateRaw exact [Num 15, Num 10, Num 10, Num 10, Num 10, Num 10, Num 10, Num 10] scales"
  by (simp add: onLine_eq frame_fifteen parseFloat_samples del: tabJoin.simps) simp


text \<open>
  C9.  From the default channels the frame of eight times 10 is read, channel 1 is given
  category x and channel 2 category -x: both totals are 0.  Then the tare operation, which
  is \<^verbatim>\<open>handleTareAll\<close>, makes the tare value of channel 1 (and of every other channel) 10, and
  the frame 15, 10, \<dots>, 10 is read: \<open>totalX\<close> is 5.
\<close>

theorem C9_end_to_end:
  "(let st1 = readChunk exact parseFloat ([], defaultScales)
                (frame [''10'', ''10'', ''10'', ''10'', ''10'', ''10'', ''10'', ''10'']);
        s2 = handleCategoryChange 2 Cat_minus_x (handleCategoryChange 1 Cat_x (snd st1));
        s3 = handleTareAll s2;
        st4 = readChunk exact parseFloat (fst st1, s3)
                (frame [''15'', ''10'', ''10'', ''10'', ''10'', ''10'', ''10'', ''10''])
    in snd (aggregate s2) = (Num 0, Num 0)
       \<and> map tareValue s3 = [Num 10, Num 10, Num 10, Num 10, Num 10, Num 10, Num 10, Num 10]
       \<and> map rawValue (snd st4) = [Num 15, Num 10, Num 10, Num 10, Num 10, Num 10, Num 10, Num 10]
       \<and> snd (aggregate (snd st4)) = (Num 5, Num 0))"
  by (simp add: Let_def readChunk_frame frame_tens(1) frame_fifteen(1) onLine_tens onLine_fifteen
      defaultScales_list updateRaw_def handleCategoryChange_def handleTareAll_def
      aggregate_eq aggregateStep_tuple processedValueOf_def del: tabJoin.simps)

end
